theory Spec2Isabelle
  imports Main "HOL-Library.Sublist"
begin

section \<open>JavaScript strings\<close>

text \<open>
  The program is TypeScript run by Bun. A JavaScript string is modelled as a HOL
  \<open>string\<close>: a list of characters with codes 0..255, that is, text of the Latin-1
  range, on which one code unit is one character. The string methods the program calls
  are embedded below with the semantics ECMAScript gives them on that range.
\<close>

definition dquote :: char where
  "dquote = CHR 0x22"

definition newline :: char where
  "newline = CHR 0x0A"

definition isDigit :: "char \<Rightarrow> bool" where
  \<comment> \<open>the regular-expression class \<open>\d\<close>\<close>
  "isDigit c = (c \<in> set ''0123456789'')"

definition isAsciiLetter :: "char \<Rightarrow> bool" where
  \<comment> \<open>the regular-expression class \<open>[a-zA-Z]\<close>\<close>
  "isAsciiLetter c =
     (c \<in> set ''abcdefghijklmnopqrstuvwxyzABCDEFGHIJKLMNOPQRSTUVWXYZ'')"

definition isWhiteSpace :: "char \<Rightarrow> bool" where
  \<comment> \<open>ECMAScript WhiteSpace and LineTerminator below 256: TAB, LF, VT, FF, CR, SP, NBSP;
      the class \<open>\s\<close> and what \<open>trim\<close> strips\<close>
  "isWhiteSpace c = (c \<in> set [CHR 0x09, CHR 0x0A, CHR 0x0B, CHR 0x0C, CHR 0x0D, CHR 0x20, CHR 0xA0])"

definition trim :: "string \<Rightarrow> string" where
  "trim s = rev (dropWhile isWhiteSpace (rev (dropWhile isWhiteSpace s)))"

definition upperLetters :: string where
  \<comment> \<open>A-Z and the Latin-1 capitals U+00C0..U+00DE, without the sign U+00D7\<close>
  "upperLetters = ''ABCDEFGHIJKLMNOPQRSTUVWXYZ'' @ [
      CHR 0xC0, CHR 0xC1, CHR 0xC2, CHR 0xC3, CHR 0xC4, CHR 0xC5, CHR 0xC6, CHR 0xC7,
      CHR 0xC8, CHR 0xC9, CHR 0xCA, CHR 0xCB, CHR 0xCC, CHR 0xCD, CHR 0xCE, CHR 0xCF,
      CHR 0xD0, CHR 0xD1, CHR 0xD2, CHR 0xD3, CHR 0xD4, CHR 0xD5, CHR 0xD6, CHR 0xD8,
      CHR 0xD9, CHR 0xDA, CHR 0xDB, CHR 0xDC, CHR 0xDD, CHR 0xDE]"

definition lowerLetters :: string where
  \<comment> \<open>the small letter of each, 32 places on\<close>
  "lowerLetters = ''abcdefghijklmnopqrstuvwxyz'' @ [
      CHR 0xE0, CHR 0xE1, CHR 0xE2, CHR 0xE3, CHR 0xE4, CHR 0xE5, CHR 0xE6, CHR 0xE7,
      CHR 0xE8, CHR 0xE9, CHR 0xEA, CHR 0xEB, CHR 0xEC, CHR 0xED, CHR 0xEE, CHR 0xEF,
      CHR 0xF0, CHR 0xF1, CHR 0xF2, CHR 0xF3, CHR 0xF4, CHR 0xF5, CHR 0xF6, CHR 0xF8,
      CHR 0xF9, CHR 0xFA, CHR 0xFB, CHR 0xFC, CHR 0xFD, CHR 0xFE]"

definition lowerChar :: "char \<Rightarrow> char" where
  \<comment> \<open>every character below 256 that is not a capital is left as it is\<close>
  "lowerChar c =
     (case map_of (zip upperLetters lowerLetters) c of Some l \<Rightarrow> l | None \<Rightarrow> c)"

definition toLowerCase :: "string \<Rightarrow> string" where
  "toLowerCase s = map lowerChar s"

definition startsWith :: "string \<Rightarrow> string \<Rightarrow> bool" where
  "startsWith s p = prefix p s"

fun str_includes :: "string \<Rightarrow> string \<Rightarrow> bool" where
  \<comment> \<open>\<open>s.includes(sub)\<close>: \<open>sub\<close> occurs in \<open>s\<close> at some position\<close>
  "str_includes [] sub = (sub = [])"
| "str_includes (c # s) sub = (prefix sub (c # s) \<or> str_includes s sub)"

fun lastIndexOf :: "string \<Rightarrow> char \<Rightarrow> nat option" where
  \<comment> \<open>\<open>s.lastIndexOf(c)\<close> for a one-character needle; \<open>None\<close> is the source's -1\<close>
  "lastIndexOf [] c = None"
| "lastIndexOf (x # s) c =
     (case lastIndexOf s c of
        Some i \<Rightarrow> Some (Suc i)
      | None \<Rightarrow> (if x = c then Some 0 else None))"

fun join :: "string \<Rightarrow> string list \<Rightarrow> string" where
  \<comment> \<open>\<open>parts.join(sep)\<close>\<close>
  "join sep [] = []"
| "join sep [p] = p"
| "join sep (p # q # ps) = p @ sep @ join sep (q # ps)"

section \<open>Data model\<close>

text \<open>
  The \<open>Task\<close> type of the source. A field the source declares optional or nullable is
  an \<open>option\<close>. The \<open>date\<close> of a due value is declared \<open>string\<close>, but the
  program reads it through \<open>??\<close> and through a truthiness test, so the nullish case is
  part of the model too.
\<close>

record Due =
  due_date :: "string option"
  due_datetime :: "string option"
  due_string :: string
  due_isRecurring :: bool

record Deadline =
  deadline_date :: string

record Task =
  t_id :: string
  t_content :: string
  t_description :: string
  t_priority :: int
  t_due :: "Due option"
  t_deadline :: "Deadline option"
  t_labels :: "string list"
  t_projectId :: string
  t_sectionId :: "string option"
  t_parentId :: "string option"
  t_url :: string
  t_isCompleted :: "bool option"

text \<open>Projects are untyped in the source; these are the fields it reads.\<close>

record Project =
  p_id :: string
  p_name :: string
  p_color :: string
  p_isInboxProject :: bool
  p_isFavorite :: bool
  p_url :: string

section \<open>The remote client and the outcome of a run\<close>

text \<open>
  The Todoist client is a collaborator: each of its methods is a field of the record
  below, returning \<open>Inl message\<close> where the promise rejects. The program only reads
  through these methods, so a method is a function of its arguments. Every function that
  calls the client returns the calls it issued, in order, beside its outcome.

  \<open>fatal(message)\<close> prints the failure envelope and exits the process: it is the
  outcome \<open>Fatal message\<close>. A rejection that nothing catches inside the function leaves
  it as \<open>Rejected message\<close>; \<open>main\<close> turns that into \<open>Fatal\<close> with the command's
  name in front.
\<close>

datatype api_call =
    GetTask string
  | GetProject string
  | GetTasksByFilter string "nat option"
  | GetTasks
  | GetProjects

record TodoistApi =
  getTask :: "string \<Rightarrow> string + Task"
  getProject :: "string \<Rightarrow> string + Project"
  getTasksByFilter :: "string \<Rightarrow> nat option \<Rightarrow> string + Task list"
  getTasks :: "string + Task list"
  getProjects :: "string + Project list"

datatype failure = Fatal string | Rejected string

definition awaited :: "string + 'a \<Rightarrow> failure + 'a" where
  \<comment> \<open>the value of a promise that is returned or awaited outside any \<open>try\<close>\<close>
  "awaited r = (case r of Inl err \<Rightarrow> Inl (Rejected err) | Inr v \<Rightarrow> Inr v)"

definition errorEnvelope :: "string \<Rightarrow> failure \<Rightarrow> string" where
  \<comment> \<open>the \<open>error\<close> field of the failure envelope the process ends with: \<open>fatal\<close>
      prints its message; \<open>main\<close> catches a rejection and calls
      \<open>fatal(`${cmd} failed: ${err.message}`)\<close>\<close>
  "errorEnvelope cmd f =
     (case f of
        Fatal message \<Rightarrow> message
      | Rejected message \<Rightarrow> cmd @ '' failed: '' @ message)"

section \<open>Reference resolution\<close>

subsection \<open>Todoist URLs\<close>

text \<open>
  \<open>TODOIST_URL_PATTERN\<close> is
  \<^verbatim>\<open>/^https?:\/\/app\.todoist\.com\/app\/(task|project|label|filter)\/([^?#]+)/\<close>.
  The matcher below follows the pattern from the left: the optional \<open>s\<close> is tried
  first and given up when the rest does not match, the four kinds are tried in the
  pattern's order, and the last group takes the longest run of characters other than
  \<open>?\<close> and \<open>#\<close>, which must not be empty.
\<close>

definition stripPrefix :: "string \<Rightarrow> string \<Rightarrow> string option" where
  "stripPrefix p s = (if prefix p s then Some (drop (length p) s) else None)"

fun matchKind :: "string list \<Rightarrow> string \<Rightarrow> (string \<times> string) option" where
  "matchKind [] s = None"
| "matchKind (k # ks) s =
     (case stripPrefix (k @ ''/'') s of
        Some rest \<Rightarrow>
          (let slugAndId = takeWhile (\<lambda>c. c \<noteq> CHR ''?'' \<and> c \<noteq> CHR ''#'') rest
           in if slugAndId \<noteq> [] then Some (k, slugAndId) else matchKind ks s)
      | None \<Rightarrow> matchKind ks s)"

definition matchAfterScheme :: "string \<Rightarrow> (string \<times> string) option" where
  "matchAfterScheme r =
     (case stripPrefix ''://app.todoist.com/app/'' r of
        None \<Rightarrow> None
      | Some rest \<Rightarrow> matchKind [''task'', ''project'', ''label'', ''filter''] rest)"

definition matchTodoistUrl :: "string \<Rightarrow> (string \<times> string) option" where
  \<comment> \<open>\<open>url.match(TODOIST_URL_PATTERN)\<close>: the groups 1 and 2 of the match\<close>
  "matchTodoistUrl url =
     (case stripPrefix ''http'' url of
        None \<Rightarrow> None
      | Some r0 \<Rightarrow>
          (case (case stripPrefix ''s'' r0 of Some r1 \<Rightarrow> matchAfterScheme r1 | None \<Rightarrow> None) of
             Some m \<Rightarrow> Some m
           | None \<Rightarrow> matchAfterScheme r0))"

record ParsedUrl =
  url_type :: string
  url_id :: string

definition parseTodoistUrl :: "string \<Rightarrow> ParsedUrl option" where
  "parseTodoistUrl url =
     (case matchTodoistUrl url of
        None \<Rightarrow> None
      | Some (kind, slugAndId) \<Rightarrow>
          Some \<lparr>url_type = kind,
                url_id = (case lastIndexOf slugAndId (CHR ''-'') of
                            None \<Rightarrow> slugAndId
                          | Some lastHyphen \<Rightarrow> drop (lastHyphen + 1) slugAndId)\<rparr>)"

subsection \<open>Explicit and raw ids\<close>

definition isIdRef :: "string \<Rightarrow> bool" where
  "isIdRef ref = startsWith ref ''id:''"

definition extractId :: "string \<Rightarrow> string" where
  "extractId ref = drop 3 ref"

definition looksLikeRawId :: "string \<Rightarrow> bool" where
  \<comment> \<open>\<open>/^\d+$/\<close> has no \<open>m\<close> flag: the whole string is one or more digits\<close>
  "looksLikeRawId ref =
     (if str_includes ref '' '' then False
      else (ref \<noteq> [] \<and> list_all isDigit ref)
           \<or> (list_ex isAsciiLetter ref \<and> list_ex isDigit ref))"

subsection \<open>Messages\<close>

definition candidateLine :: "string \<Rightarrow> string \<Rightarrow> string" where
  \<comment> \<open>the template \<open>  "${content}" (id:${id})\<close>\<close>
  "candidateLine shown ident = ''  '' @ [dquote] @ shown @ [dquote] @ '' (id:'' @ ident @ '')''"

definition ambiguousMessage :: "string \<Rightarrow> string \<Rightarrow> (string \<times> string) list \<Rightarrow> string" where
  \<comment> \<open>\<open>Ambiguous <kind> "<ref>". Matches:\<close>, a line feed, and one line for each
      (display text, id) pair, joined by line feeds\<close>
  "ambiguousMessage kind ref candidates =
     ''Ambiguous '' @ kind @ '' '' @ [dquote] @ ref @ [dquote] @ ''. Matches:'' @ [newline]
       @ join [newline] (map (\<lambda>(shown, ident). candidateLine shown ident) candidates)"

definition notFoundMessage :: "string \<Rightarrow> string \<Rightarrow> string" where
  "notFoundMessage kind ref =
     kind @ '' '' @ [dquote] @ ref @ [dquote] @ '' not found. Use a name, URL, or id:xxx.''"

definition wrongUrlKindMessage :: "string \<Rightarrow> string \<Rightarrow> string" where
  "wrongUrlKindMessage kind got = ''Expected a '' @ kind @ '' URL, got '' @ got @ '' URL.''"

subsection \<open>Tasks\<close>

text \<open>
  \<open>resolveTaskRef\<close> is embedded in three parts, in the order of the source: the
  matching of the search results, the \<open>try\<close> block around the search, and the function
  itself with the raw-id fallback. The \<open>try\<close> block either ends the function (a task
  is returned, or \<open>fatal\<close> exits) or is left, normally or through its empty \<open>catch\<close>:
  that is the value \<open>None\<close>.
\<close>

definition matchTasks :: "string \<Rightarrow> Task list \<Rightarrow> (failure + Task) option" where
  "matchTasks ref results =
     (let lower = toLowerCase ref;
          exact = filter (\<lambda>t. toLowerCase (t_content t) = lower) results
      in if length exact = 1 then Some (Inr (exact ! 0))
         else
           (let partial = filter (\<lambda>t. str_includes (toLowerCase (t_content t)) lower) results
            in if length partial = 1 then Some (Inr (partial ! 0))
               else if length partial > 1
               then Some (Inl (Fatal (ambiguousMessage ''task'' ref
                       (map (\<lambda>t. (t_content t, t_id t)) (take 5 partial)))))
               else None))"

definition searchQuery :: "string \<Rightarrow> string" where
  "searchQuery ref = ''search: '' @ ref"

definition searchTasks :: "TodoistApi \<Rightarrow> string \<Rightarrow> (failure + Task) option" where
  "searchTasks api ref =
     (case getTasksByFilter api (searchQuery ref) (Some 10) of
        Inl err \<Rightarrow> None
      | Inr results \<Rightarrow> matchTasks ref results)"

definition rawTaskFallback :: "TodoistApi \<Rightarrow> string \<Rightarrow> api_call list \<times> (failure + Task)" where
  "rawTaskFallback api ref =
     (if looksLikeRawId ref
      then (case getTask api ref of
              Inr t \<Rightarrow> ([GetTask ref], Inr t)
            | Inl err \<Rightarrow> ([GetTask ref], Inl (Fatal (notFoundMessage ''Task'' ref))))
      else ([], Inl (Fatal (notFoundMessage ''Task'' ref))))"

definition resolveTaskRef :: "TodoistApi \<Rightarrow> string \<Rightarrow> api_call list \<times> (failure + Task)" where
  "resolveTaskRef api ref =
     (if trim ref = [] then ([], Inl (Fatal ''Task reference cannot be empty.''))
      else
        (case parseTodoistUrl ref of
           Some parsed \<Rightarrow>
             if url_type parsed \<noteq> ''task''
             then ([], Inl (Fatal (wrongUrlKindMessage ''task'' (url_type parsed))))
             else ([GetTask (url_id parsed)], awaited (getTask api (url_id parsed)))
         | None \<Rightarrow>
             if isIdRef ref
             then ([GetTask (extractId ref)], awaited (getTask api (extractId ref)))
             else
               (case searchTasks api ref of
                  Some r \<Rightarrow> ([GetTasksByFilter (searchQuery ref) (Some 10)], r)
                | None \<Rightarrow>
                    (let (calls, r) = rawTaskFallback api ref
                     in (GetTasksByFilter (searchQuery ref) (Some 10) # calls, r)))))"

subsection \<open>Projects\<close>

text \<open>
  \<open>resolveProjectRef\<close> lists the projects outside any \<open>try\<close>: a rejection of the
  listing leaves the function.
\<close>

definition matchProjects :: "string \<Rightarrow> Project list \<Rightarrow> (failure + Project) option" where
  "matchProjects ref projects =
     (let lower = toLowerCase ref;
          exact = filter (\<lambda>p. toLowerCase (p_name p) = lower) projects
      in if length exact = 1 then Some (Inr (exact ! 0))
         else
           (let partial = filter (\<lambda>p. str_includes (toLowerCase (p_name p)) lower) projects
            in if length partial = 1 then Some (Inr (partial ! 0))
               else if length partial > 1
               then Some (Inl (Fatal (ambiguousMessage ''project'' ref
                       (map (\<lambda>p. (p_name p, p_id p)) (take 5 partial)))))
               else None))"

definition rawProjectFallback ::
  "TodoistApi \<Rightarrow> string \<Rightarrow> api_call list \<times> (failure + Project)" where
  "rawProjectFallback api ref =
     (if looksLikeRawId ref
      then (case getProject api ref of
              Inr p \<Rightarrow> ([GetProject ref], Inr p)
            | Inl err \<Rightarrow> ([GetProject ref], Inl (Fatal (notFoundMessage ''Project'' ref))))
      else ([], Inl (Fatal (notFoundMessage ''Project'' ref))))"

definition resolveProjectRef ::
  "TodoistApi \<Rightarrow> string \<Rightarrow> api_call list \<times> (failure + Project)" where
  "resolveProjectRef api ref =
     (if trim ref = [] then ([], Inl (Fatal ''Project reference cannot be empty.''))
      else
        (case parseTodoistUrl ref of
           Some parsed \<Rightarrow>
             if url_type parsed \<noteq> ''project''
             then ([], Inl (Fatal (wrongUrlKindMessage ''project'' (url_type parsed))))
             else ([GetProject (url_id parsed)], awaited (getProject api (url_id parsed)))
         | None \<Rightarrow>
             if isIdRef ref
             then ([GetProject (extractId ref)], awaited (getProject api (extractId ref)))
             else
               (case getProjects api of
                  Inl err \<Rightarrow> ([GetProjects], Inl (Rejected err))
                | Inr projects \<Rightarrow>
                    (case matchProjects ref projects of
                       Some r \<Rightarrow> ([GetProjects], r)
                     | None \<Rightarrow>
                         (let (calls, r) = rawProjectFallback api ref
                          in (GetProjects # calls, r))))))"

section \<open>Formatting\<close>

text \<open>
  \<open>formatTask\<close>. A field that the source sets to \<open>undefined\<close> (left out of the JSON
  output) or to \<open>null\<close> is \<open>None\<close>.
\<close>

record FormattedTask =
  f_id :: string
  f_content :: string
  f_description :: "string option"
  f_priority :: int
  f_due :: "string option"
  f_dueString :: "string option"
  f_isRecurring :: bool
  f_deadline :: "string option"
  f_labels :: "string list option"
  f_projectId :: string
  f_sectionId :: "string option"
  f_parentId :: "string option"
  f_url :: string

definition formatTask :: "Task \<Rightarrow> FormattedTask" where
  "formatTask t =
     \<lparr>f_id = t_id t,
      f_content = t_content t,
      f_description = (if t_description t \<noteq> [] then Some (t_description t) else None),
      f_priority = t_priority t,
      f_due = (case t_due t of
                 None \<Rightarrow> None
               | Some d \<Rightarrow> (case due_date d of
                              Some date \<Rightarrow> Some date
                            | None \<Rightarrow> due_datetime d)),
      f_dueString = (case t_due t of None \<Rightarrow> None | Some d \<Rightarrow> Some (due_string d)),
      f_isRecurring = (case t_due t of None \<Rightarrow> False | Some d \<Rightarrow> due_isRecurring d),
      f_deadline = (case t_deadline t of None \<Rightarrow> None | Some dl \<Rightarrow> Some (deadline_date dl)),
      f_labels = (if length (t_labels t) \<noteq> 0 then Some (t_labels t) else None),
      f_projectId = t_projectId t,
      f_sectionId = t_sectionId t,
      f_parentId = t_parentId t,
      f_url = t_url t\<rparr>"

section \<open>Credentials\<close>

text \<open>
  \<open>getToken\<close> reads the environment variable and, when it is unset or empty, the output
  of the \<open>secrets lease\<close> process, which is \<open>None\<close> when \<open>execSync\<close> throws.
\<close>

record Credentials =
  env_TODOIST_API_TOKEN :: "string option"
  secrets_lease :: "string option"

definition truthy :: "string option \<Rightarrow> bool" where
  \<comment> \<open>JavaScript truthiness of an optional string: present and not empty\<close>
  "truthy v = (case v of None \<Rightarrow> False | Some s \<Rightarrow> s \<noteq> [])"

definition noTokenMessage :: string where
  "noTokenMessage =
     ''No TODOIST_API_TOKEN found. Set it via:'' @ [newline]
     @ ''  export TODOIST_API_TOKEN=<token>          # env var'' @ [newline]
     @ ''  secrets add todoist_api_token              # agent-secrets'' @ [newline]
     @ ''Get your token at: https://app.todoist.com/app/settings/integrations/developer''"

definition leasedToken :: "Credentials \<Rightarrow> failure + string" where
  "leasedToken c =
     (case secrets_lease c of
        Some out \<Rightarrow> if trim out \<noteq> [] then Inr (trim out) else Inl (Fatal noTokenMessage)
      | None \<Rightarrow> Inl (Fatal noTokenMessage))"

definition getToken :: "Credentials \<Rightarrow> failure + string" where
  "getToken c =
     (case env_TODOIST_API_TOKEN c of
        Some env \<Rightarrow> if env \<noteq> [] then Inr env else leasedToken c
      | None \<Rightarrow> leasedToken c)"

section \<open>Durations\<close>

text \<open>
  \<open>parseDuration\<close> searches the string for an hours part and for a minutes part, each
  with one regular expression, and adds what it finds; a string of digits alone counts as
  minutes. Numbers are exact naturals here; the source's are doubles, which round above
  \<open>2^53\<close> and are \<open>Infinity\<close> on very long digit strings.
\<close>

definition digitValue :: "char \<Rightarrow> nat" where
  \<comment> \<open>the value of a digit: its place among the ten digits\<close>
  "digitValue c = length (takeWhile (\<lambda>d. d \<noteq> c) ''0123456789'')"

definition parseInt :: "string \<Rightarrow> nat" where
  \<comment> \<open>\<open>parseInt\<close> on a non-empty string of digits\<close>
  "parseInt digits = foldl (\<lambda>n c. 10 * n + digitValue c) 0 digits"

fun matchNumberUnit :: "string \<Rightarrow> string \<Rightarrow> string option" where
  \<comment> \<open>the first match of \<open>/(\d+)\s*u/i\<close> in the string, for a unit letter \<open>u\<close> given in
      both cases: group 1. At a start position the digits and the whitespace are taken as
      far as they go; giving some back cannot make the unit letter match.\<close>
  "matchNumberUnit unit [] = None"
| "matchNumberUnit unit (c # s) =
     (let digits = takeWhile isDigit (c # s);
          rest = dropWhile isWhiteSpace (dropWhile isDigit (c # s))
      in if digits \<noteq> [] \<and> (case rest of [] \<Rightarrow> False | u # _ \<Rightarrow> u \<in> set unit)
         then Some digits
         else matchNumberUnit unit s)"

definition parseDuration :: "string \<Rightarrow> nat option" where
  \<comment> \<open>the patterns are \<open>/(\d+)\s*h(?:ours?)?/i\<close> and \<open>/(\d+)\s*m(?:in(?:utes?)?)?/i\<close>; the
      optional tails never decide whether a pattern matches\<close>
  "parseDuration s =
     (let hours = matchNumberUnit ''hH'' s;
          minutes = matchNumberUnit ''mM'' s;
          total = (case hours of Some h \<Rightarrow> parseInt h * 60 | None \<Rightarrow> 0)
                  + (case minutes of Some m \<Rightarrow> parseInt m * 1 | None \<Rightarrow> 0);
          matched = (hours \<noteq> None \<or> minutes \<noteq> None)
      in if \<not> matched \<and> trim s \<noteq> [] \<and> list_all isDigit (trim s)
         then Some (parseInt (trim s))
         else if matched then Some total else None)"

section \<open>Reminders\<close>

text \<open>
  \<open>cmdReminderAdd\<close> works on more than the client: it reads the token twice, posts one
  \<open>reminder_add\<close> command to the Sync endpoint with \<open>fetch\<close> and draws two random
  UUIDs. These collaborators are the fields of \<open>World\<close>. A field of the posted command
  that the source leaves out is \<open>None\<close>. The log of a command lists the client calls
  and the post, in order.
\<close>

record ReminderOpts =
  opt_before :: "string option"
  opt_at :: "string option"

record ReminderCommand =
  cmd_type :: string
  cmd_uuid :: string
  cmd_temp_id :: string
  cmd_item_id :: string
  cmd_minute_offset :: "nat option"
  cmd_due_date :: "string option"

record HttpResponse =
  resp_ok :: bool
  resp_status :: nat

datatype remote_call = Client api_call | SyncPost string ReminderCommand

record World =
  credentials :: Credentials
  client :: TodoistApi
  syncPost :: "string \<Rightarrow> ReminderCommand \<Rightarrow> string + HttpResponse"
  randomUUIDs :: "string \<times> string"

record ReminderAdded =
  ra_task :: "string \<times> string"
  ra_reminder :: string
  ra_next_actions :: "(string \<times> string) list"

fun showNat :: "nat \<Rightarrow> string" where
  "showNat n =
     (if n < 10 then [''0123456789'' ! n]
      else showNat (n div 10) @ [''0123456789'' ! (n mod 10)])"

definition reminderArgs :: "ReminderOpts \<Rightarrow> Task \<Rightarrow> failure + (nat option \<times> string option)" where
  \<comment> \<open>the two \<open>if\<close> blocks that fill \<open>args.minuteOffset\<close> and \<open>args.due\<close>\<close>
  "reminderArgs opts task =
     (let due = (if truthy (opt_at opts) then opt_at opts else None)
      in case opt_before opts of
           None \<Rightarrow> Inr (None, due)
         | Some before \<Rightarrow>
             if before = [] then Inr (None, due)
             else
               (case parseDuration before of
                  None \<Rightarrow> Inl (Fatal (''Invalid duration '' @ [dquote] @ before @ [dquote]
                                        @ ''. Examples: 30m, 1h, 2h30m''))
                | Some minutes \<Rightarrow>
                    if t_due task = None
                    then Inl (Fatal ''Cannot use --before: task has no due date. Use --at instead.'')
                    else Inr (Some minutes, due)))"

definition reminderText :: "ReminderOpts \<Rightarrow> string" where
  \<comment> \<open>\<open>opts.before ? `${opts.before} before due` : `at ${opts.at}`\<close>\<close>
  "reminderText opts =
     (if truthy (opt_before opts)
      then (case opt_before opts of Some before \<Rightarrow> before | None \<Rightarrow> []) @ '' before due''
      else ''at '' @ (case opt_at opts of Some at \<Rightarrow> at | None \<Rightarrow> ''undefined''))"

definition cmdReminderAdd ::
  "World \<Rightarrow> string \<Rightarrow> ReminderOpts \<Rightarrow> remote_call list \<times> (failure + ReminderAdded)" where
  "cmdReminderAdd w ref opts =
     (if \<not> truthy (opt_before opts) \<and> \<not> truthy (opt_at opts)
      then ([], Inl (Fatal ''Must specify --before <duration> or --at <datetime>''))
      else
        (case getToken (credentials w) of
           Inl f \<Rightarrow> ([], Inl f)
         | Inr clientToken \<Rightarrow>
             (case resolveTaskRef (client w) ref of
                (calls, Inl f) \<Rightarrow> (map Client calls, Inl f)
              | (calls, Inr task) \<Rightarrow>
                  (case reminderArgs opts task of
                     Inl f \<Rightarrow> (map Client calls, Inl f)
                   | Inr (minuteOffset, due) \<Rightarrow>
                       (case getToken (credentials w) of
                          Inl f \<Rightarrow> (map Client calls, Inl f)
                        | Inr token \<Rightarrow>
                            (let command =
                                   \<lparr>cmd_type = ''reminder_add'',
                                    cmd_uuid = fst (randomUUIDs w),
                                    cmd_temp_id = snd (randomUUIDs w),
                                    cmd_item_id = t_id task,
                                    cmd_minute_offset = minuteOffset,
                                    cmd_due_date = due\<rparr>;
                                 log = map Client calls @ [SyncPost token command]
                             in (case syncPost w token command of
                                   Inl err \<Rightarrow> (log, Inl (Rejected err))
                                 | Inr resp \<Rightarrow>
                                     if \<not> resp_ok resp
                                     then (log, Inl (Fatal (''Reminder API error: ''
                                                            @ showNat (resp_status resp))))
                                     else (log, Inr
                                       \<lparr>ra_task = (t_id task, t_content task),
                                        ra_reminder = reminderText opts,
                                        ra_next_actions =
                                          [(''todoist-cli reminders '' @ t_id task,
                                            ''List reminders for this task'')]\<rparr>))))))))"

section \<open>The daily review\<close>

text \<open>
  Time. An instant is a number of milliseconds since the epoch, as the time value of a
  JavaScript \<open>Date\<close>. The local time zone is a fixed offset in minutes, local time
  minus UTC (so -300 is UTC-05:00).

  \<open>new Date(s)\<close> on a date-only string \<open>YYYY-MM-DD\<close>, the form of the \<open>date\<close>
  of a due value, is the midnight of that day in UTC: ECMAScript reads a date-only form as
  UTC. \<open>dateOnlyTime\<close> is that time value.
  \<open>setHours(0, 0, 0, 0)\<close> sets the local time of day to midnight.

  The model of time is narrower than the runtime in three places, and what is proved of
  the overdue filter is proved inside these bounds:
  \<^item> \<open>dateOnlyTime\<close> is \<open>None\<close> on a string that carries a time of day, which the
    runtime parses (as local time when it names no zone); \<open>isOverdue\<close> is false there.
  \<^item> \<open>dateOnlyTime\<close> is \<open>None\<close> on a day past the end of its month, such as
    \<open>2024-02-30\<close>, which the runtime carries over into the next month.
  \<^item> the zone is one fixed offset; in a zone with daylight saving the local midnight of a
    changeover day is another instant.
\<close>

definition msPerDay :: int where
  "msPerDay = 86400000"

definition isLeapYear :: "int \<Rightarrow> bool" where
  "isLeapYear y = (y mod 4 = 0 \<and> (y mod 100 \<noteq> 0 \<or> y mod 400 = 0))"

definition dayFromYear :: "int \<Rightarrow> int" where
  \<comment> \<open>ECMAScript DayFromYear: the day number of 1 January\<close>
  "dayFromYear y =
     365 * (y - 1970) + (y - 1969) div 4 - (y - 1901) div 100 + (y - 1601) div 400"

definition daysInMonth :: "int \<Rightarrow> int \<Rightarrow> int" where
  "daysInMonth y m =
     (if m = 2 then (if isLeapYear y then 29 else 28)
      else if m = 4 \<or> m = 6 \<or> m = 9 \<or> m = 11 then 30 else 31)"

fun daysBeforeMonth :: "int \<Rightarrow> nat \<Rightarrow> int" where
  \<comment> \<open>the days of the months 1..k of the year\<close>
  "daysBeforeMonth y 0 = 0"
| "daysBeforeMonth y (Suc k) = daysBeforeMonth y k + daysInMonth y (int (Suc k))"

definition dateOnlyTime :: "string \<Rightarrow> int option" where
  "dateOnlyTime s =
     (if length s = 10 \<and> s ! 4 = CHR ''-'' \<and> s ! 7 = CHR ''-''
         \<and> list_all isDigit (take 4 s) \<and> list_all isDigit (take 2 (drop 5 s))
         \<and> list_all isDigit (drop 8 s)
      then (let y = int (parseInt (take 4 s));
                m = parseInt (take 2 (drop 5 s));
                d = int (parseInt (drop 8 s))
            in if 1 \<le> m \<and> m \<le> 12 \<and> 1 \<le> d \<and> d \<le> daysInMonth y (int m)
               then Some (msPerDay * (dayFromYear y + daysBeforeMonth y (m - 1) + (d - 1)))
               else None)
      else None)"

record Clock =
  now :: int
  utcOffsetMinutes :: int

definition startOfLocalDay :: "Clock \<Rightarrow> int" where
  \<comment> \<open>\<open>today = new Date(); today.setHours(0, 0, 0, 0)\<close>\<close>
  "startOfLocalDay c =
     ((now c + utcOffsetMinutes c * 60000) div msPerDay) * msPerDay
       - utcOffsetMinutes c * 60000"

definition isOverdue :: "int \<Rightarrow> Task \<Rightarrow> bool" where
  \<comment> \<open>the predicate of the \<open>overdue\<close> filter; a comparison with an invalid date is
      false\<close>
  "isOverdue today t =
     (case t_due t of
        None \<Rightarrow> False
      | Some d \<Rightarrow>
          if \<not> truthy (due_date d) then False
          else (case due_date d of
                  None \<Rightarrow> False
                | Some date \<Rightarrow>
                    (case dateOnlyTime date of
                       None \<Rightarrow> False
                     | Some time \<Rightarrow> time < today)))"

record ProjectCount =
  pc_id :: string
  pc_name :: string
  pc_taskCount :: nat

record Review =
  r_today :: "nat \<times> FormattedTask list"
  r_inbox :: "nat \<times> FormattedTask list"
  r_overdue :: "nat \<times> FormattedTask list"
  r_floating :: nat
  r_projects :: "ProjectCount list"
  r_total :: nat

definition reviewReport :: "Clock \<Rightarrow> Task list \<Rightarrow> Task list \<Rightarrow> Project list \<Rightarrow> Review" where
  \<comment> \<open>the body of \<open>cmdReview\<close> after the three responses have arrived\<close>
  "reviewReport clock todayTasks allTasks projects =
     (let inbox = find p_isInboxProject projects;
          inboxTasks = (case inbox of
                          Some i \<Rightarrow> filter (\<lambda>t. t_projectId t = p_id i) allTasks
                        | None \<Rightarrow> []);
          today = startOfLocalDay clock;
          overdue = filter (isOverdue today) allTasks;
          noDue = filter (\<lambda>t. t_due t = None) allTasks
      in \<lparr>r_today = (length todayTasks, map formatTask todayTasks),
          r_inbox = (length inboxTasks, map formatTask inboxTasks),
          r_overdue = (length overdue, map formatTask overdue),
          r_floating = length noDue,
          r_projects = map (\<lambda>p. \<lparr>pc_id = p_id p, pc_name = p_name p,
                                      pc_taskCount = length (filter (\<lambda>t. t_projectId t = p_id p) allTasks)\<rparr>)
                         (filter (\<lambda>p. \<not> p_isInboxProject p) projects),
          r_total = length allTasks\<rparr>)"

definition cmdReview :: "World \<Rightarrow> Clock \<Rightarrow> remote_call list \<times> (failure + Review)" where
  \<comment> \<open>the three calls are issued together; when more than one rejects, \<open>Promise.all\<close>
      rejects with the one that rejects first in time, taken here in the order of the array\<close>
  "cmdReview w clock =
     (case getToken (credentials w) of
        Inl f \<Rightarrow> ([], Inl f)
      | Inr token \<Rightarrow>
          (let log = map Client [GetTasksByFilter ''today'' None, GetTasks, GetProjects]
           in case getTasksByFilter (client w) ''today'' None of
                Inl err \<Rightarrow> (log, Inl (Rejected err))
              | Inr todayTasks \<Rightarrow>
                  (case getTasks (client w) of
                     Inl err \<Rightarrow> (log, Inl (Rejected err))
                   | Inr allTasks \<Rightarrow>
                       (case getProjects (client w) of
                          Inl err \<Rightarrow> (log, Inl (Rejected err))
                        | Inr projects \<Rightarrow>
                            (log, Inr (reviewReport clock todayTasks allTasks projects))))))"

section \<open>The specification's reading of a raw id\<close>

text \<open>
  The specification describes a ref that looks like an id in words: no embedded whitespace,
  and either all digits or an alphanumeric string with at least one letter and at least one
  digit. The definition below follows those words, to be compared with
  \<open>looksLikeRawId\<close>, which follows the source.
\<close>

definition spec_looksLikeRawId :: "string \<Rightarrow> bool" where
  "spec_looksLikeRawId ref =
     ((\<not> list_ex isWhiteSpace ref)
      \<and> ((ref \<noteq> [] \<and> list_all isDigit ref)
         \<or> (list_all (\<lambda>c. isAsciiLetter c \<or> isDigit c) ref
            \<and> list_ex isAsciiLetter ref \<and> list_ex isDigit ref)))"

section \<open>Sample data\<close>

text \<open>
  Concrete tasks, projects and stub clients, on which the theorems below are run. The stub
  client answers every search with the same fixed answer, fetches by id from a fixed list
  and rejects with \<open>HTTP 404\<close> for an id that is not in it.
\<close>

definition sampleTask :: "string \<Rightarrow> string \<Rightarrow> Task" where
  "sampleTask ident shown =
     \<lparr>t_id = ident, t_content = shown, t_description = [], t_priority = 1, t_due = None,
      t_deadline = None, t_labels = [], t_projectId = ''100'', t_sectionId = None,
      t_parentId = None, t_url = ''https://app.todoist.com/app/task/'' @ ident,
      t_isCompleted = None\<rparr>"

definition sampleProject :: "string \<Rightarrow> string \<Rightarrow> Project" where
  "sampleProject ident name =
     \<lparr>p_id = ident, p_name = name, p_color = ''grey'', p_isInboxProject = False,
      p_isFavorite = False, p_url = ''https://app.todoist.com/app/project/'' @ ident\<rparr>"

definition stubApi :: "(string + Task list) \<Rightarrow> Task list \<Rightarrow> Project list \<Rightarrow> TodoistApi" where
  "stubApi found tasks projects =
     \<lparr>getTask = (\<lambda>i. case find (\<lambda>t. t_id t = i) tasks of
                         Some t \<Rightarrow> Inr t | None \<Rightarrow> Inl ''HTTP 404''),
      getProject = (\<lambda>i. case find (\<lambda>p. p_id p = i) projects of
                            Some p \<Rightarrow> Inr p | None \<Rightarrow> Inl ''HTTP 404''),
      getTasksByFilter = (\<lambda>query limit. found),
      getTasks = Inr tasks,
      getProjects = Inr projects\<rparr>"

definition zzzApi :: TodoistApi where
  "zzzApi = stubApi (Inr [sampleTask ''1'' ''zzz'']) [sampleTask ''1'' ''zzz''] []"

definition workTasks :: "Task list" where
  "workTasks = [sampleTask ''11'' ''Homework'', sampleTask ''12'' ''Work'', sampleTask ''13'' ''Workout plan'']"

definition workProjects :: "Project list" where
  "workProjects = [sampleProject ''21'' ''Workshop'', sampleProject ''22'' ''WORK'', sampleProject ''23'' ''Network'']"

definition workApi :: TodoistApi where
  "workApi = stubApi (Inr workTasks) workTasks workProjects"

definition deployTasks :: "Task list" where
  "deployTasks = [sampleTask ''abc'' ''Deploy pipeline'', sampleTask ''7'' ''Write docs'',
                  sampleTask ''def'' ''Deploy worker'']"

definition deployProjects :: "Project list" where
  "deployProjects = [sampleProject ''31'' ''Deployments'', sampleProject ''32'' ''Deploy tools'']"

definition deployApi :: TodoistApi where
  "deployApi = stubApi (Inr deployTasks) deployTasks deployProjects"

definition crowdedTasks :: "Task list" where
  "crowdedTasks = [sampleTask ''1'' ''xa'', sampleTask ''2'' ''xb'', sampleTask ''3'' ''xc'',
                   sampleTask ''4'' ''xd'', sampleTask ''5'' ''xe'', sampleTask ''6'' ''x'',
                   sampleTask ''7'' ''X'']"

definition crowdedApi :: TodoistApi where
  "crowdedApi = stubApi (Inr crowdedTasks) crowdedTasks []"

definition offlineApi :: TodoistApi where
  "offlineApi = stubApi (Inl ''fetch failed'') [] []"

definition emptyApi :: TodoistApi where
  "emptyApi = stubApi (Inr []) [] []"

definition dueTask :: "string \<Rightarrow> string \<Rightarrow> string \<Rightarrow> Task" where
  "dueTask ident shown date =
     (sampleTask ident shown)
       \<lparr>t_due := Some \<lparr>due_date = Some date, due_datetime = None, due_string = date,
                        due_isRecurring = False\<rparr>\<rparr>"

definition recurringTask :: Task where
  "recurringTask =
     (sampleTask ''41'' ''Water plants'')
       \<lparr>t_due := Some \<lparr>due_date = None, due_datetime = None, due_string = ''every day'',
                        due_isRecurring = True\<rparr>\<rparr>"

definition timedTask :: Task where
  "timedTask =
     (sampleTask ''42'' ''Call the bank'')
       \<lparr>t_due := Some \<lparr>due_date = None, due_datetime = Some ''2024-01-15T09:00:00Z'',
                        due_string = ''tomorrow 9am'', due_isRecurring = False\<rparr>\<rparr>"

definition reminderWorld :: World where
  "reminderWorld =
     \<lparr>credentials = \<lparr>env_TODOIST_API_TOKEN = Some ''token'', secrets_lease = None\<rparr>,
      client = stubApi (Inr []) [dueTask ''1'' ''Deploy pipeline'' ''2024-01-15''] [],
      syncPost = (\<lambda>token command. Inr \<lparr>resp_ok = True, resp_status = 200\<rparr>),
      randomUUIDs = (''uuid-1'', ''uuid-2'')\<rparr>"

definition bothOpts :: ReminderOpts where
  "bothOpts = \<lparr>opt_before = Some ''30m'', opt_at = Some ''2026-02-20T10:00''\<rparr>"

definition noOpts :: ReminderOpts where
  "noOpts = \<lparr>opt_before = None, opt_at = None\<rparr>"

definition noonInNewYork :: Clock where
  \<comment> \<open>2024-01-15, 12:00 at UTC-05:00\<close>
  "noonInNewYork = \<lparr>now = 1705338000000, utcOffsetMinutes = - 300\<rparr>"

section \<open>Properties\<close>

subsection \<open>Strings\<close>

lemma str_includes_iff: "str_includes s sub \<longleftrightarrow> (\<exists>a b. s = a @ sub @ b)"
proof (induction s)
  case Nil
  then show ?case by auto
next
  case (Cons c s)
  show ?case
  proof
    assume "str_includes (c # s) sub"
    then consider "prefix sub (c # s)" | "str_includes s sub" by auto
    then show "\<exists>a b. c # s = a @ sub @ b"
    proof cases
      case 1
      then obtain b where "c # s = sub @ b" by (auto simp: prefix_def)
      then have "c # s = [] @ sub @ b" by simp
      then show ?thesis by blast
    next
      case 2
      with Cons.IH obtain a b where "s = a @ sub @ b" by blast
      then have "c # s = (c # a) @ sub @ b" by simp
      then show ?thesis by blast
    qed
  next
    assume "\<exists>a b. c # s = a @ sub @ b"
    then obtain a b where ab: "c # s = a @ sub @ b" by blast
    show "str_includes (c # s) sub"
    proof (cases a)
      case Nil
      with ab have "prefix sub (c # s)" by (simp add: prefix_def)
      then show ?thesis by simp
    next
      case (Cons x a')
      with ab have "s = a' @ sub @ b" by simp
      with Cons.IH have "str_includes s sub" by blast
      then show ?thesis by simp
    qed
  qed
qed

lemma str_includes_self: "str_includes s s"
proof -
  have "s = [] @ s @ []" by simp
  then show ?thesis unfolding str_includes_iff by blast
qed

subsection \<open>Reference resolution\<close>

lemma trim_empty_iff: "trim s = [] \<longleftrightarrow> (\<forall>c\<in>set s. isWhiteSpace c)"
proof
  assume "trim s = []"
  then have "dropWhile isWhiteSpace (rev (dropWhile isWhiteSpace s)) = []"
    by (simp add: trim_def)
  then have "\<forall>c\<in>set (dropWhile isWhiteSpace s). isWhiteSpace c"
    by (simp add: dropWhile_eq_Nil_conv)
  moreover have "\<forall>c\<in>set (takeWhile isWhiteSpace s). isWhiteSpace c"
    by (auto dest: set_takeWhileD)
  moreover have "set s = set (takeWhile isWhiteSpace s) \<union> set (dropWhile isWhiteSpace s)"
    by (metis set_append takeWhile_dropWhile_id)
  ultimately show "\<forall>c\<in>set s. isWhiteSpace c" by blast
next
  assume "\<forall>c\<in>set s. isWhiteSpace c"
  then have d: "dropWhile isWhiteSpace s = []" by simp
  show "trim s = []" unfolding trim_def d by simp
qed

lemma stripPrefix_Some: "stripPrefix p s = Some r \<longleftrightarrow> s = p @ r"
  by (auto simp: stripPrefix_def prefix_def)

lemma matchTodoistUrl_http: "matchTodoistUrl url = Some m \<Longrightarrow> \<exists>r. url = ''http'' @ r"
  by (auto simp: matchTodoistUrl_def stripPrefix_Some split: option.splits)

lemma parseTodoistUrl_http: "parseTodoistUrl url = Some p \<Longrightarrow> \<exists>r. url = ''http'' @ r"
  by (auto simp: parseTodoistUrl_def dest: matchTodoistUrl_http split: option.splits)

lemma url_not_blank: "parseTodoistUrl ref = Some p \<Longrightarrow> trim ref \<noteq> []"
proof -
  assume "parseTodoistUrl ref = Some p"
  then obtain r where "ref = ''http'' @ r" using parseTodoistUrl_http by blast
  then have "CHR ''h'' \<in> set ref" by simp
  moreover have "\<not> isWhiteSpace (CHR ''h'')" by (simp add: isWhiteSpace_def)
  ultimately show ?thesis unfolding trim_empty_iff by blast
qed

lemma idRef_form: "isIdRef ref \<longleftrightarrow> (\<exists>r. ref = ''id:'' @ r)"
  by (auto simp: isIdRef_def startsWith_def prefix_def)

lemma idRef_not_blank: "isIdRef ref \<Longrightarrow> trim ref \<noteq> []"
proof -
  assume "isIdRef ref"
  then obtain r where "ref = ''id:'' @ r" unfolding idRef_form by blast
  then have "CHR ''i'' \<in> set ref" by simp
  moreover have "\<not> isWhiteSpace (CHR ''i'')" by (simp add: isWhiteSpace_def)
  ultimately show ?thesis unfolding trim_empty_iff by blast
qed

lemma idRef_not_url: "isIdRef ref \<Longrightarrow> parseTodoistUrl ref = None"
proof (rule ccontr)
  assume id: "isIdRef ref" and "parseTodoistUrl ref \<noteq> None"
  then obtain p where "parseTodoistUrl ref = Some p" by blast
  then obtain r where "ref = ''http'' @ r" using parseTodoistUrl_http by blast
  moreover from id obtain r' where "ref = ''id:'' @ r'" unfolding idRef_form by blast
  ultimately show False by simp
qed

lemma matchKind_kind: "matchKind ks s = Some (k, slug) \<Longrightarrow> k \<in> set ks"
  by (induction ks) (auto split: option.splits if_splits simp: Let_def)

lemma matchAfterScheme_kind:
  "matchAfterScheme r = Some (k, slug) \<Longrightarrow> k \<in> {''task'', ''project'', ''label'', ''filter''}"
proof -
  assume "matchAfterScheme r = Some (k, slug)"
  then obtain rest where "matchKind [''task'', ''project'', ''label'', ''filter''] rest = Some (k, slug)"
    by (auto simp: matchAfterScheme_def split: option.splits)
  then have "k \<in> set [''task'', ''project'', ''label'', ''filter'']" by (rule matchKind_kind)
  then show ?thesis by simp
qed

lemma matchTodoistUrl_kind:
  "matchTodoistUrl url = Some (k, slug) \<Longrightarrow> k \<in> {''task'', ''project'', ''label'', ''filter''}"
  unfolding matchTodoistUrl_def
  by (auto split: option.splits dest: matchAfterScheme_kind)

lemma parseTodoistUrl_kind:
  "parseTodoistUrl url = Some p \<Longrightarrow> url_type p \<in> {''task'', ''project'', ''label'', ''filter''}"
proof -
  assume "parseTodoistUrl url = Some p"
  then obtain k slug where "matchTodoistUrl url = Some (k, slug)" and "url_type p = k"
    by (auto simp: parseTodoistUrl_def split: option.splits)
  then show ?thesis using matchTodoistUrl_kind by simp
qed

text \<open>
  Claim C3. A ref that matches the URL pattern has one of the four kinds in its kind
  segment. When that kind is not the requested one, resolution exits with the message
  \<open>Expected a <requested> URL, got <kind> URL.\<close> and has called the client not once:
  neither the \<open>id:\<close> prefix, nor the search, nor the raw-id fetch is reached. This
  holds for tasks and for projects.
\<close>

theorem url_kind_mismatch:
  assumes "parseTodoistUrl ref = Some parsed"
  shows "url_type parsed \<in> {''task'', ''project'', ''label'', ''filter''}
       \<and> (url_type parsed \<noteq> ''task'' \<longrightarrow>
            resolveTaskRef api ref =
              ([], Inl (Fatal (''Expected a task URL, got '' @ url_type parsed @ '' URL.''))))
       \<and> (url_type parsed \<noteq> ''project'' \<longrightarrow>
            resolveProjectRef api ref =
              ([], Inl (Fatal (''Expected a project URL, got '' @ url_type parsed @ '' URL.''))))"
proof -
  have nb: "trim ref \<noteq> []" using assms by (rule url_not_blank)
  have t: "url_type parsed \<noteq> ''task'' \<longrightarrow> resolveTaskRef api ref =
              ([], Inl (Fatal (''Expected a task URL, got '' @ url_type parsed @ '' URL.'')))"
    using assms nb by (simp add: resolveTaskRef_def wrongUrlKindMessage_def)
  have p: "url_type parsed \<noteq> ''project'' \<longrightarrow> resolveProjectRef api ref =
              ([], Inl (Fatal (''Expected a project URL, got '' @ url_type parsed @ '' URL.'')))"
    using assms nb by (simp add: resolveProjectRef_def wrongUrlKindMessage_def)
  from parseTodoistUrl_kind[OF assms] t p show ?thesis by blast
qed

lemma parse_label_url:
  "parseTodoistUrl ''https://app.todoist.com/app/label/urgent-9'' = Some \<lparr>url_type = ''label'', url_id = ''9''\<rparr>"
  by (simp add: parseTodoistUrl_def matchTodoistUrl_def matchAfterScheme_def stripPrefix_def)

theorem url_kind_mismatch_witness:
  "parseTodoistUrl ''https://app.todoist.com/app/label/urgent-9''
     = Some \<lparr>url_type = ''label'', url_id = ''9''\<rparr>
   \<and> resolveTaskRef zzzApi ''https://app.todoist.com/app/label/urgent-9''
       = ([], Inl (Fatal ''Expected a task URL, got label URL.''))
   \<and> resolveProjectRef zzzApi ''https://app.todoist.com/app/label/urgent-9''
       = ([], Inl (Fatal ''Expected a project URL, got label URL.''))"
  using url_kind_mismatch [OF parse_label_url, of zzzApi] parse_label_url by simp

text \<open>
  Claim C4, as the code has it. A ref that starts with \<open>id:\<close> issues exactly one
  call, the fetch of the remainder of the ref taken as it is, and nothing else: no search
  and no raw-id fetch, whatever the remainder looks like. The outcome is the outcome of
  that fetch. When the fetch rejects, the rejection leaves \<open>resolveTaskRef\<close> as it
  is (\<open>main\<close> reports it as \<open><command> failed: <message>\<close>); it is not turned
  into the not-found message.
\<close>

theorem id_prefix_direct_fetch:
  assumes "isIdRef ref"
  shows "resolveTaskRef api ref =
           ([GetTask (drop 3 ref)],
            (case getTask api (drop 3 ref) of
               Inr t \<Rightarrow> Inr t
             | Inl err \<Rightarrow> Inl (Rejected err)))"
  using assms idRef_not_blank[OF assms] idRef_not_url[OF assms]
  by (simp add: resolveTaskRef_def extractId_def awaited_def split: sum.splits)

theorem id_prefix_direct_fetch_witness:
  "isIdRef ''id:1''
   \<and> resolveTaskRef zzzApi ''id:1'' = ([GetTask ''1''], Inr (sampleTask ''1'' ''zzz''))"
proof -
  have h: "isIdRef ''id:1''" by (simp add: isIdRef_def startsWith_def)
  show ?thesis using h id_prefix_direct_fetch [OF h, of zzzApi]
    by (simp add: zzzApi_def stubApi_def sampleTask_def)
qed

text \<open>
  Claim C4 as stated says that a failing direct fetch ends in the not-found error. On the
  ref \<open>id:zzz\<close>, with a client that has no task of id \<open>zzz\<close> (but one whose
  content is \<open>zzz\<close>), the outcome is the rejection of the fetch, not the not-found
  message.
\<close>

theorem id_prefix_failure_counterexample:
  "isIdRef ''id:zzz''
   \<and> getTask zzzApi ''zzz'' = Inl ''HTTP 404''
   \<and> resolveTaskRef zzzApi ''id:zzz'' = ([GetTask ''zzz''], Inl (Rejected ''HTTP 404''))
   \<and> snd (resolveTaskRef zzzApi ''id:zzz'') \<noteq> Inl (Fatal (notFoundMessage ''Task'' ''id:zzz''))
   \<and> errorEnvelope ''show'' (Rejected ''HTTP 404'') = ''show failed: HTTP 404''"
proof -
  have h: "isIdRef ''id:zzz''" by (simp add: isIdRef_def startsWith_def)
  have g: "getTask zzzApi ''zzz'' = Inl ''HTTP 404''" by (simp add: zzzApi_def stubApi_def sampleTask_def)
  have r: "resolveTaskRef zzzApi ''id:zzz'' = ([GetTask ''zzz''], Inl (Rejected ''HTTP 404''))"
    using h g idRef_not_blank[OF h] idRef_not_url[OF h]
    by (simp add: resolveTaskRef_def extractId_def awaited_def)
  show ?thesis using h g r by (simp add: errorEnvelope_def)
qed

lemma filter_unique_index:
  "i < length xs \<Longrightarrow> P (xs ! i) \<Longrightarrow> (\<forall>j<length xs. P (xs ! j) \<longrightarrow> j = i)
   \<Longrightarrow> filter P xs = [xs ! i]"
proof (induction xs arbitrary: i)
  case Nil
  then show ?case by simp
next
  case (Cons x xs)
  show ?case
  proof (cases i)
    case 0
    have "\<not> P y" if "y \<in> set xs" for y
    proof
      assume "P y"
      from that obtain k where k: "k < length xs" "xs ! k = y"
        unfolding in_set_conv_nth by blast
      then have "Suc k < length (x # xs)" and "P ((x # xs) ! Suc k)"
        using \<open>P y\<close> by simp_all
      with Cons.prems(3) have "Suc k = i" by blast
      with 0 show False by simp
    qed
    then have "filter P xs = []" unfolding filter_empty_conv by blast
    with 0 Cons.prems(2) show ?thesis by simp
  next
    case (Suc i')
    have notx: "\<not> P x"
    proof
      assume "P x"
      then have "0 < length (x # xs)" and "P ((x # xs) ! 0)" by simp_all
      with Cons.prems(3) have "0 = i" by blast
      with Suc show False by simp
    qed
    have a: "i' < length xs" using Cons.prems(1) Suc by simp
    have b: "P (xs ! i')" using Cons.prems(2) Suc by simp
    have c: "\<forall>j<length xs. P (xs ! j) \<longrightarrow> j = i'"
    proof (intro allI impI)
      fix j assume "j < length xs" and "P (xs ! j)"
      then have "Suc j < length (x # xs)" and "P ((x # xs) ! Suc j)" by simp_all
      with Cons.prems(3) have "Suc j = i" by blast
      with Suc show "j = i'" by simp
    qed
    from Cons.IH[OF a b c] notx Suc show ?thesis by simp
  qed
qed

lemma filter_length_mono:
  "(\<And>x. P x \<Longrightarrow> Q x) \<Longrightarrow> length (filter P xs) \<le> length (filter Q xs)"
  by (induction xs) auto

lemma resolveTaskRef_search:
  assumes "trim ref \<noteq> []" and "parseTodoistUrl ref = None" and "\<not> isIdRef ref"
  shows "resolveTaskRef api ref =
           (case searchTasks api ref of
              Some r \<Rightarrow> ([GetTasksByFilter (searchQuery ref) (Some 10)], r)
            | None \<Rightarrow> (GetTasksByFilter (searchQuery ref) (Some 10) # fst (rawTaskFallback api ref),
                       snd (rawTaskFallback api ref)))"
  using assms by (simp add: resolveTaskRef_def split: option.splits prod.splits)

lemma resolveProjectRef_listing:
  assumes "trim ref \<noteq> []" and "parseTodoistUrl ref = None" and "\<not> isIdRef ref"
    and "getProjects api = Inr projects"
  shows "resolveProjectRef api ref =
           (case matchProjects ref projects of
              Some r \<Rightarrow> ([GetProjects], r)
            | None \<Rightarrow> (GetProjects # fst (rawProjectFallback api ref),
                       snd (rawProjectFallback api ref)))"
  using assms by (simp add: resolveProjectRef_def split: option.splits prod.splits)

lemma matchTasks_exact:
  "filter (\<lambda>t. toLowerCase (t_content t) = toLowerCase ref) results = [c]
   \<Longrightarrow> matchTasks ref results = Some (Inr c)"
  by (simp add: matchTasks_def Let_def)

lemma matchProjects_exact:
  "filter (\<lambda>p. toLowerCase (p_name p) = toLowerCase ref) projects = [c]
   \<Longrightarrow> matchProjects ref projects = Some (Inr c)"
  by (simp add: matchProjects_def Let_def)

lemma matchTasks_ambiguous:
  assumes "length (filter (\<lambda>t. toLowerCase (t_content t) = toLowerCase ref) results) \<noteq> 1"
    and "1 < length (filter (\<lambda>t. str_includes (toLowerCase (t_content t)) (toLowerCase ref)) results)"
  shows "matchTasks ref results =
           Some (Inl (Fatal (ambiguousMessage ''task'' ref
             (map (\<lambda>t. (t_content t, t_id t))
               (take 5 (filter (\<lambda>t. str_includes (toLowerCase (t_content t)) (toLowerCase ref)) results))))))"
  using assms by (simp add: matchTasks_def Let_def)

lemma matchProjects_ambiguous:
  assumes "length (filter (\<lambda>p. toLowerCase (p_name p) = toLowerCase ref) projects) \<noteq> 1"
    and "1 < length (filter (\<lambda>p. str_includes (toLowerCase (p_name p)) (toLowerCase ref)) projects)"
  shows "matchProjects ref projects =
           Some (Inl (Fatal (ambiguousMessage ''project'' ref
             (map (\<lambda>p. (p_name p, p_id p))
               (take 5 (filter (\<lambda>p. str_includes (toLowerCase (p_name p)) (toLowerCase ref)) projects))))))"
  using assms by (simp add: matchProjects_def Let_def)

lemma first_five_subseq:
  "subseq (map f (take 5 (filter P xs))) (map f xs)"
proof -
  have "subseq (take 5 (filter P xs)) (filter P xs)"
    by (rule prefix_imp_subseq) (rule take_is_prefix)
  then have "subseq (take 5 (filter P xs)) xs"
    using subseq_filter_left subseq_order.trans by blast
  then show ?thesis by (rule subseq_map)
qed

text \<open>
  Claim C1. Let a ref reach the search (it is not blank, not a Todoist URL and has no
  \<open>id:\<close> prefix) and let the search return \<open>results\<close>. If position \<open>i\<close> is
  the only position of \<open>results\<close> whose content, in lower case, equals the ref in
  lower case, then \<open>resolveTaskRef\<close> returns the task at position \<open>i\<close>, whatever
  the other results contain. The same holds for \<open>resolveProjectRef\<close> over the project
  listing, with the project name as display text.
\<close>

theorem unique_exact_match_wins:
  assumes "trim ref \<noteq> []" and "parseTodoistUrl ref = None" and "\<not> isIdRef ref"
  shows "(getTasksByFilter api (searchQuery ref) (Some 10) = Inr results
            \<and> i < length results
            \<and> toLowerCase (t_content (results ! i)) = toLowerCase ref
            \<and> (\<forall>j<length results.
                  toLowerCase (t_content (results ! j)) = toLowerCase ref \<longrightarrow> j = i)
          \<longrightarrow> resolveTaskRef api ref
                = ([GetTasksByFilter (searchQuery ref) (Some 10)], Inr (results ! i)))
       \<and> (getProjects api = Inr projects
            \<and> k < length projects
            \<and> toLowerCase (p_name (projects ! k)) = toLowerCase ref
            \<and> (\<forall>j<length projects.
                  toLowerCase (p_name (projects ! j)) = toLowerCase ref \<longrightarrow> j = k)
          \<longrightarrow> resolveProjectRef api ref = ([GetProjects], Inr (projects ! k)))"
proof (intro conjI impI)
  assume h: "getTasksByFilter api (searchQuery ref) (Some 10) = Inr results
            \<and> i < length results
            \<and> toLowerCase (t_content (results ! i)) = toLowerCase ref
            \<and> (\<forall>j<length results.
                  toLowerCase (t_content (results ! j)) = toLowerCase ref \<longrightarrow> j = i)"
  then have "filter (\<lambda>t. toLowerCase (t_content t) = toLowerCase ref) results = [results ! i]"
    by (intro filter_unique_index) blast+
  then have "matchTasks ref results = Some (Inr (results ! i))" by (rule matchTasks_exact)
  with h have "searchTasks api ref = Some (Inr (results ! i))" by (simp add: searchTasks_def)
  then show "resolveTaskRef api ref
                = ([GetTasksByFilter (searchQuery ref) (Some 10)], Inr (results ! i))"
    by (simp add: resolveTaskRef_search[OF assms])
next
  assume h: "getProjects api = Inr projects
            \<and> k < length projects
            \<and> toLowerCase (p_name (projects ! k)) = toLowerCase ref
            \<and> (\<forall>j<length projects.
                  toLowerCase (p_name (projects ! j)) = toLowerCase ref \<longrightarrow> j = k)"
  then have "filter (\<lambda>p. toLowerCase (p_name p) = toLowerCase ref) projects = [projects ! k]"
    by (intro filter_unique_index) blast+
  then have "matchProjects ref projects = Some (Inr (projects ! k))" by (rule matchProjects_exact)
  moreover from h have "getProjects api = Inr projects" by blast
  ultimately show "resolveProjectRef api ref = ([GetProjects], Inr (projects ! k))"
    by (simp add: resolveProjectRef_listing[OF assms])
qed

lemma work_reaches_search:
  "trim ''work'' \<noteq> []" "parseTodoistUrl ''work'' = None" "\<not> isIdRef ''work''"
  by (simp_all add: trim_def isWhiteSpace_def parseTodoistUrl_def matchTodoistUrl_def
      stripPrefix_def isIdRef_def startsWith_def)

lemma lower_simps:
  "toLowerCase ''work'' = ''work''" "toLowerCase ''Work'' = ''work''"
  "toLowerCase ''WORK'' = ''work''" "toLowerCase ''Homework'' = ''homework''"
  "toLowerCase ''Workout plan'' = ''workout plan''" 
  "toLowerCase ''Workshop'' = ''workshop''" "toLowerCase ''Network'' = ''network''"
  by (simp_all add: toLowerCase_def lowerChar_def upperLetters_def lowerLetters_def)

theorem unique_exact_match_wins_witness:
  "trim ''work'' \<noteq> [] \<and> parseTodoistUrl ''work'' = None \<and> \<not> isIdRef ''work''
   \<and> getTasksByFilter workApi (searchQuery ''work'') (Some 10) = Inr workTasks
   \<and> length workTasks = 3
   \<and> toLowerCase (t_content (workTasks ! 0)) \<noteq> toLowerCase ''work''
   \<and> toLowerCase (t_content (workTasks ! 1)) = toLowerCase ''work''
   \<and> toLowerCase (t_content (workTasks ! 2)) \<noteq> toLowerCase ''work''
   \<and> resolveTaskRef workApi ''work''
       = ([GetTasksByFilter ''search: work'' (Some 10)], Inr (sampleTask ''12'' ''Work''))
   \<and> getProjects workApi = Inr workProjects
   \<and> length workProjects = 3
   \<and> toLowerCase (p_name (workProjects ! 0)) \<noteq> toLowerCase ''work''
   \<and> toLowerCase (p_name (workProjects ! 1)) = toLowerCase ''work''
   \<and> toLowerCase (p_name (workProjects ! 2)) \<noteq> toLowerCase ''work''
   \<and> resolveProjectRef workApi ''work'' = ([GetProjects], Inr (sampleProject ''22'' ''WORK''))"
proof -
  have a: "getTasksByFilter workApi (searchQuery ''work'') (Some 10) = Inr workTasks"
    by (simp add: workApi_def stubApi_def)
  have b: "1 < length workTasks" by (simp add: workTasks_def)
  have c: "toLowerCase (t_content (workTasks ! 1)) = toLowerCase ''work''"
    by (simp add: workTasks_def sampleTask_def lower_simps)
  have d: "\<forall>j<length workTasks.
         toLowerCase (t_content (workTasks ! j)) = toLowerCase ''work'' \<longrightarrow> j = 1"
    by (simp add: workTasks_def sampleTask_def lower_simps numeral_3_eq_3 less_Suc_eq)
  have a': "getProjects workApi = Inr workProjects"
    by (simp add: workApi_def stubApi_def)
  have b': "1 < length workProjects" by (simp add: workProjects_def)
  have c': "toLowerCase (p_name (workProjects ! 1)) = toLowerCase ''work''"
    by (simp add: workProjects_def sampleProject_def lower_simps)
  have d': "\<forall>j<length workProjects.
         toLowerCase (p_name (workProjects ! j)) = toLowerCase ''work'' \<longrightarrow> j = 1"
    by (simp add: workProjects_def sampleProject_def lower_simps numeral_3_eq_3 less_Suc_eq)
  have e: "workTasks ! 1 = sampleTask ''12'' ''Work''" by (simp add: workTasks_def)
  have e': "workProjects ! 1 = sampleProject ''22'' ''WORK''" by (simp add: workProjects_def)
  have q: "searchQuery ''work'' = ''search: work''" by (simp add: searchQuery_def)
  from unique_exact_match_wins [OF work_reaches_search, of workApi workTasks 1 workProjects 1]
    a b c d a' b' c' d'
  have "resolveTaskRef workApi ''work''
          = ([GetTasksByFilter (searchQuery ''work'') (Some 10)], Inr (workTasks ! 1))
      \<and> resolveProjectRef workApi ''work'' = ([GetProjects], Inr (workProjects ! 1))"
    by blast
  moreover have "length workTasks = 3" "length workProjects = 3"
    by (simp_all add: workTasks_def workProjects_def)
  moreover have "toLowerCase (t_content (workTasks ! 0)) \<noteq> toLowerCase ''work''"
    "toLowerCase (t_content (workTasks ! 2)) \<noteq> toLowerCase ''work''"
    by (simp_all add: workTasks_def sampleTask_def lower_simps)
  moreover have "toLowerCase (p_name (workProjects ! 0)) \<noteq> toLowerCase ''work''"
    "toLowerCase (p_name (workProjects ! 2)) \<noteq> toLowerCase ''work''"
    by (simp_all add: workProjects_def sampleProject_def lower_simps)
  ultimately show ?thesis using work_reaches_search a c a' c' unfolding e e' q by blast
qed

lemma join_lines: "ls \<noteq> [] \<Longrightarrow> sep @ join sep ls = concat (map (\<lambda>l. sep @ l) ls)"
  by (induction sep ls rule: join.induct) simp_all

lemma ambiguousMessage_spelled:
  assumes "cands \<noteq> []"
  shows "ambiguousMessage kind ref cands
           = ''Ambiguous '' @ kind @ '' '' @ [CHR 0x22] @ ref @ [CHR 0x22] @ ''. Matches:''
               @ concat (map (\<lambda>(shown, ident). [CHR 0x0A] @ ''  '' @ [CHR 0x22] @ shown @ [CHR 0x22]
                                                 @ '' (id:'' @ ident @ '')'')
                           cands)"
proof -
  have ne: "map (\<lambda>(shown, ident). candidateLine shown ident) cands \<noteq> []"
    using assms by simp
  have "[newline] @ join [newline] (map (\<lambda>(shown, ident). candidateLine shown ident) cands)
          = concat (map (\<lambda>l. [newline] @ l) (map (\<lambda>(shown, ident). candidateLine shown ident) cands))"
    using ne by (rule join_lines)
  also have "\<dots> = concat (map (\<lambda>(shown, ident). [CHR 0x0A] @ ''  '' @ [CHR 0x22] @ shown @ [CHR 0x22]
                                                 @ '' (id:'' @ ident @ '')'')
                           cands)"
    by (simp add: candidateLine_def newline_def dquote_def comp_def case_prod_unfold)
  finally show ?thesis
    by (simp add: ambiguousMessage_def dquote_def)
qed

lemma ambiguous_task_text:
  assumes "1 < length (filter P results)"
  shows "ambiguousMessage ''task'' ref (map (\<lambda>t. (t_content t, t_id t)) (take 5 (filter P results)))
           = ''Ambiguous task '' @ [CHR 0x22] @ ref @ [CHR 0x22] @ ''. Matches:''
               @ concat (map (\<lambda>t. [CHR 0x0A] @ ''  '' @ [CHR 0x22] @ t_content t @ [CHR 0x22]
                                    @ '' (id:'' @ t_id t @ '')'')
                           (take 5 (filter P results)))"
proof -
  have "filter P results \<noteq> []" using assms by auto
  then have "map (\<lambda>t. (t_content t, t_id t)) (take 5 (filter P results)) \<noteq> []" by simp
  then show ?thesis by (simp add: ambiguousMessage_spelled comp_def)
qed

lemma ambiguous_project_text:
  assumes "1 < length (filter P projects)"
  shows "ambiguousMessage ''project'' ref (map (\<lambda>p. (p_name p, p_id p)) (take 5 (filter P projects)))
           = ''Ambiguous project '' @ [CHR 0x22] @ ref @ [CHR 0x22] @ ''. Matches:''
               @ concat (map (\<lambda>p. [CHR 0x0A] @ ''  '' @ [CHR 0x22] @ p_name p @ [CHR 0x22]
                                    @ '' (id:'' @ p_id p @ '')'')
                           (take 5 (filter P projects)))"
proof -
  have "filter P projects \<noteq> []" using assms by auto
  then have "map (\<lambda>p. (p_name p, p_id p)) (take 5 (filter P projects)) \<noteq> []" by simp
  then show ?thesis by (simp add: ambiguousMessage_spelled comp_def)
qed

lemma notFoundMessage_spelled:
  "notFoundMessage kind ref
     = kind @ '' '' @ [CHR 0x22] @ ref @ [CHR 0x22] @ '' not found. Use a name, URL, or id:xxx.''"
  by (simp add: notFoundMessage_def dquote_def)

text \<open>
  Claim C2. Let a ref reach the search and let the search return \<open>results\<close>. If more
  than one result contains the ref (both in lower case) and the results do not hold
  exactly one exact match, \<open>resolveTaskRef\<close> exits with the ambiguity error. Its text is
  \<open>Ambiguous task "<ref>". Matches:\<close> followed, for each of the first five matching
  results in the order the search returned them, by a line feed and the line
  \<open>  "<content>" (id:<id>)\<close>. Those results are at most five and a subsequence of the
  search results. The same holds for \<open>resolveProjectRef\<close> over the project listing,
  with \<open>project\<close> in the text and the name of a project as its display text.
\<close>

theorem ambiguous_substring_match:
  assumes "trim ref \<noteq> []" and "parseTodoistUrl ref = None" and "\<not> isIdRef ref"
  shows "(getTasksByFilter api (''search: '' @ ref) (Some 10) = Inr results
            \<and> 1 < length (filter (\<lambda>t. str_includes (toLowerCase (t_content t)) (toLowerCase ref)) results)
            \<and> length (filter (\<lambda>t. toLowerCase (t_content t) = toLowerCase ref) results) \<noteq> 1
          \<longrightarrow> resolveTaskRef api ref
                = ([GetTasksByFilter (''search: '' @ ref) (Some 10)],
                   Inl (Fatal (''Ambiguous task '' @ [CHR 0x22] @ ref @ [CHR 0x22] @ ''. Matches:''
                       @ concat (map (\<lambda>t. [CHR 0x0A] @ ''  '' @ [CHR 0x22] @ t_content t @ [CHR 0x22]
                                            @ '' (id:'' @ t_id t @ '')'')
                                   (take 5 (filter (\<lambda>t. str_includes (toLowerCase (t_content t)) (toLowerCase ref))
                                              results)))))))
       \<and> (getProjects api = Inr projects
            \<and> 1 < length (filter (\<lambda>p. str_includes (toLowerCase (p_name p)) (toLowerCase ref)) projects)
            \<and> length (filter (\<lambda>p. toLowerCase (p_name p) = toLowerCase ref) projects) \<noteq> 1
          \<longrightarrow> resolveProjectRef api ref
                = ([GetProjects],
                   Inl (Fatal (''Ambiguous project '' @ [CHR 0x22] @ ref @ [CHR 0x22] @ ''. Matches:''
                       @ concat (map (\<lambda>p. [CHR 0x0A] @ ''  '' @ [CHR 0x22] @ p_name p @ [CHR 0x22]
                                            @ '' (id:'' @ p_id p @ '')'')
                                   (take 5 (filter (\<lambda>p. str_includes (toLowerCase (p_name p)) (toLowerCase ref))
                                              projects)))))))
       \<and> length (take 5 (filter (\<lambda>t. str_includes (toLowerCase (t_content t)) (toLowerCase ref)) results)) \<le> 5
       \<and> subseq (take 5 (filter (\<lambda>t. str_includes (toLowerCase (t_content t)) (toLowerCase ref)) results)) results
       \<and> length (take 5 (filter (\<lambda>p. str_includes (toLowerCase (p_name p)) (toLowerCase ref)) projects)) \<le> 5
       \<and> subseq (take 5 (filter (\<lambda>p. str_includes (toLowerCase (p_name p)) (toLowerCase ref)) projects)) projects"
proof (intro conjI impI)
  assume h: "getTasksByFilter api (''search: '' @ ref) (Some 10) = Inr results
            \<and> 1 < length (filter (\<lambda>t. str_includes (toLowerCase (t_content t)) (toLowerCase ref)) results)
            \<and> length (filter (\<lambda>t. toLowerCase (t_content t) = toLowerCase ref) results) \<noteq> 1"
  then have "matchTasks ref results
      = Some (Inl (Fatal (ambiguousMessage ''task'' ref
                     (map (\<lambda>t. (t_content t, t_id t))
                       (take 5 (filter (\<lambda>t. str_includes (toLowerCase (t_content t)) (toLowerCase ref)) results))))))"
    by (intro matchTasks_ambiguous) blast+
  moreover from h have "1 < length (filter (\<lambda>t. str_includes (toLowerCase (t_content t)) (toLowerCase ref)) results)"
    by blast
  ultimately have "matchTasks ref results
      = Some (Inl (Fatal (''Ambiguous task '' @ [CHR 0x22] @ ref @ [CHR 0x22] @ ''. Matches:''
              @ concat (map (\<lambda>t. [CHR 0x0A] @ ''  '' @ [CHR 0x22] @ t_content t @ [CHR 0x22]
                                   @ '' (id:'' @ t_id t @ '')'')
                          (take 5 (filter (\<lambda>t. str_includes (toLowerCase (t_content t)) (toLowerCase ref))
                                     results))))))"
    by (simp only: ambiguous_task_text)
  with h show "resolveTaskRef api ref
                = ([GetTasksByFilter (''search: '' @ ref) (Some 10)],
                   Inl (Fatal (''Ambiguous task '' @ [CHR 0x22] @ ref @ [CHR 0x22] @ ''. Matches:''
                       @ concat (map (\<lambda>t. [CHR 0x0A] @ ''  '' @ [CHR 0x22] @ t_content t @ [CHR 0x22]
                                            @ '' (id:'' @ t_id t @ '')'')
                                   (take 5 (filter (\<lambda>t. str_includes (toLowerCase (t_content t)) (toLowerCase ref))
                                              results))))))"
    by (simp add: resolveTaskRef_search[OF assms] searchTasks_def searchQuery_def)
next
  assume h: "getProjects api = Inr projects
            \<and> 1 < length (filter (\<lambda>p. str_includes (toLowerCase (p_name p)) (toLowerCase ref)) projects)
            \<and> length (filter (\<lambda>p. toLowerCase (p_name p) = toLowerCase ref) projects) \<noteq> 1"
  then have "matchProjects ref projects
      = Some (Inl (Fatal (ambiguousMessage ''project'' ref
                     (map (\<lambda>p. (p_name p, p_id p))
                       (take 5 (filter (\<lambda>p. str_includes (toLowerCase (p_name p)) (toLowerCase ref)) projects))))))"
    by (intro matchProjects_ambiguous) blast+
  moreover from h have "1 < length (filter (\<lambda>p. str_includes (toLowerCase (p_name p)) (toLowerCase ref)) projects)"
    by blast
  ultimately have "matchProjects ref projects
      = Some (Inl (Fatal (''Ambiguous project '' @ [CHR 0x22] @ ref @ [CHR 0x22] @ ''. Matches:''
              @ concat (map (\<lambda>p. [CHR 0x0A] @ ''  '' @ [CHR 0x22] @ p_name p @ [CHR 0x22]
                                   @ '' (id:'' @ p_id p @ '')'')
                          (take 5 (filter (\<lambda>p. str_includes (toLowerCase (p_name p)) (toLowerCase ref))
                                     projects))))))"
    by (simp only: ambiguous_project_text)
  moreover from h have "getProjects api = Inr projects" by blast
  ultimately show "resolveProjectRef api ref
                = ([GetProjects],
                   Inl (Fatal (''Ambiguous project '' @ [CHR 0x22] @ ref @ [CHR 0x22] @ ''. Matches:''
                       @ concat (map (\<lambda>p. [CHR 0x0A] @ ''  '' @ [CHR 0x22] @ p_name p @ [CHR 0x22]
                                            @ '' (id:'' @ p_id p @ '')'')
                                   (take 5 (filter (\<lambda>p. str_includes (toLowerCase (p_name p)) (toLowerCase ref))
                                              projects))))))"
    by (simp add: resolveProjectRef_listing[OF assms])
next
  show "subseq (take 5 (filter (\<lambda>t. str_includes (toLowerCase (t_content t)) (toLowerCase ref)) results)) results"
    using first_five_subseq[of "\<lambda>t. t" "\<lambda>t. str_includes (toLowerCase (t_content t)) (toLowerCase ref)" results] by simp
next
  show "subseq (take 5 (filter (\<lambda>p. str_includes (toLowerCase (p_name p)) (toLowerCase ref)) projects)) projects"
    using first_five_subseq[of "\<lambda>p. p" "\<lambda>p. str_includes (toLowerCase (p_name p)) (toLowerCase ref)" projects] by simp
qed simp_all

lemma deploy_reaches_search:
  "trim ''deploy'' \<noteq> []" "parseTodoistUrl ''deploy'' = None" "\<not> isIdRef ''deploy''"
  by (simp_all add: trim_def isWhiteSpace_def parseTodoistUrl_def matchTodoistUrl_def
      stripPrefix_def isIdRef_def startsWith_def)

lemma deploy_lower:
  "toLowerCase ''deploy'' = ''deploy''"
  "toLowerCase ''Deploy pipeline'' = ''deploy pipeline''"
  "toLowerCase ''Deploy worker'' = ''deploy worker''"
  "toLowerCase ''Write docs'' = ''write docs''"
  "toLowerCase ''Deployments'' = ''deployments''"
  "toLowerCase ''Deploy tools'' = ''deploy tools''"
  by (simp_all add: toLowerCase_def lowerChar_def upperLetters_def lowerLetters_def)

lemma deploy_task_matches:
  "filter (\<lambda>t. str_includes (toLowerCase (t_content t)) (toLowerCase ''deploy'')) deployTasks
     = [sampleTask ''abc'' ''Deploy pipeline'', sampleTask ''def'' ''Deploy worker'']"
  "filter (\<lambda>t. toLowerCase (t_content t) = toLowerCase ''deploy'') deployTasks = []"
  by (simp_all add: deployTasks_def sampleTask_def deploy_lower)

lemma deploy_project_matches:
  "filter (\<lambda>p. str_includes (toLowerCase (p_name p)) (toLowerCase ''deploy'')) deployProjects
     = [sampleProject ''31'' ''Deployments'', sampleProject ''32'' ''Deploy tools'']"
  "filter (\<lambda>p. toLowerCase (p_name p) = toLowerCase ''deploy'') deployProjects = []"
  by (simp_all add: deployProjects_def sampleProject_def deploy_lower)

theorem ambiguous_substring_match_witness:
  "trim ''deploy'' \<noteq> [] \<and> parseTodoistUrl ''deploy'' = None \<and> \<not> isIdRef ''deploy''
   \<and> getTasksByFilter deployApi ''search: deploy'' (Some 10)
       = Inr [sampleTask ''abc'' ''Deploy pipeline'', sampleTask ''7'' ''Write docs'',
              sampleTask ''def'' ''Deploy worker'']
   \<and> resolveTaskRef deployApi ''deploy''
       = ([GetTasksByFilter ''search: deploy'' (Some 10)],
          Inl (Fatal (''Ambiguous task '' @ [CHR 0x22] @ ''deploy'' @ [CHR 0x22] @ ''. Matches:''
                      @ [CHR 0x0A] @ ''  '' @ [CHR 0x22] @ ''Deploy pipeline'' @ [CHR 0x22] @ '' (id:abc)''
                      @ [CHR 0x0A] @ ''  '' @ [CHR 0x22] @ ''Deploy worker'' @ [CHR 0x22] @ '' (id:def)'')))
   \<and> getProjects deployApi
       = Inr [sampleProject ''31'' ''Deployments'', sampleProject ''32'' ''Deploy tools'']
   \<and> resolveProjectRef deployApi ''deploy''
       = ([GetProjects],
          Inl (Fatal (''Ambiguous project '' @ [CHR 0x22] @ ''deploy'' @ [CHR 0x22] @ ''. Matches:''
                      @ [CHR 0x0A] @ ''  '' @ [CHR 0x22] @ ''Deployments'' @ [CHR 0x22] @ '' (id:31)''
                      @ [CHR 0x0A] @ ''  '' @ [CHR 0x22] @ ''Deploy tools'' @ [CHR 0x22] @ '' (id:32)'')))"
proof -
  have a: "getTasksByFilter deployApi (''search: '' @ ''deploy'') (Some 10) = Inr deployTasks"
    by (simp add: deployApi_def stubApi_def)
  have a': "getProjects deployApi = Inr deployProjects"
    by (simp add: deployApi_def stubApi_def)
  have t: "1 < length (filter (\<lambda>t. str_includes (toLowerCase (t_content t)) (toLowerCase ''deploy'')) deployTasks)
         \<and> length (filter (\<lambda>t. toLowerCase (t_content t) = toLowerCase ''deploy'') deployTasks) \<noteq> 1"
    unfolding deploy_task_matches by simp
  have p: "1 < length (filter (\<lambda>p. str_includes (toLowerCase (p_name p)) (toLowerCase ''deploy'')) deployProjects)
         \<and> length (filter (\<lambda>p. toLowerCase (p_name p) = toLowerCase ''deploy'') deployProjects) \<noteq> 1"
    unfolding deploy_project_matches by simp
  from ambiguous_substring_match [OF deploy_reaches_search, of deployApi deployTasks deployProjects]
    a a' t p
  have "resolveTaskRef deployApi ''deploy''
       = ([GetTasksByFilter ''search: deploy'' (Some 10)],
          Inl (Fatal (''Ambiguous task '' @ [CHR 0x22] @ ''deploy'' @ [CHR 0x22] @ ''. Matches:''
                      @ [CHR 0x0A] @ ''  '' @ [CHR 0x22] @ ''Deploy pipeline'' @ [CHR 0x22] @ '' (id:abc)''
                      @ [CHR 0x0A] @ ''  '' @ [CHR 0x22] @ ''Deploy worker'' @ [CHR 0x22] @ '' (id:def)'')))
     \<and> resolveProjectRef deployApi ''deploy''
       = ([GetProjects],
          Inl (Fatal (''Ambiguous project '' @ [CHR 0x22] @ ''deploy'' @ [CHR 0x22] @ ''. Matches:''
                      @ [CHR 0x0A] @ ''  '' @ [CHR 0x22] @ ''Deployments'' @ [CHR 0x22] @ '' (id:31)''
                      @ [CHR 0x0A] @ ''  '' @ [CHR 0x22] @ ''Deploy tools'' @ [CHR 0x22] @ '' (id:32)'')))"
    unfolding deploy_task_matches deploy_project_matches
    by (simp add: sampleTask_def sampleProject_def)
  moreover have "getTasksByFilter deployApi ''search: deploy'' (Some 10)
       = Inr [sampleTask ''abc'' ''Deploy pipeline'', sampleTask ''7'' ''Write docs'',
              sampleTask ''def'' ''Deploy worker'']"
    using a by (simp add: deployTasks_def)
  moreover have "getProjects deployApi
       = Inr [sampleProject ''31'' ''Deployments'', sampleProject ''32'' ''Deploy tools'']"
    using a' by (simp add: deployProjects_def)
  ultimately show ?thesis using deploy_reaches_search by blast
qed

lemma exact_is_partial:
  "length (filter (\<lambda>t. toLowerCase (t_content t) = lower) results)
     \<le> length (filter (\<lambda>t. str_includes (toLowerCase (t_content t)) lower) results)"
  by (rule filter_length_mono) (simp add: str_includes_self)

text \<open>
  Claim C10, as the code has it. When two or more results equal the ref in lower case,
  no task is returned: every exact match is a substring match as well, so there is more
  than one substring match and \<open>resolveTaskRef\<close> exits with the ambiguity error. Its
  text is \<open>Ambiguous task "<ref>". Matches:\<close> followed, for each of the first five
  substring matches in search order, by a line feed and the line
  \<open>  "<content>" (id:<id>)\<close>; an exact match is listed only when it is among those
  five.
\<close>

theorem duplicate_exact_matches_ambiguous:
  assumes "trim ref \<noteq> []" and "parseTodoistUrl ref = None" and "\<not> isIdRef ref"
    and "getTasksByFilter api (''search: '' @ ref) (Some 10) = Inr results"
    and "2 \<le> length (filter (\<lambda>t. toLowerCase (t_content t) = toLowerCase ref) results)"
  shows "resolveTaskRef api ref
           = ([GetTasksByFilter (''search: '' @ ref) (Some 10)],
              Inl (Fatal (''Ambiguous task '' @ [CHR 0x22] @ ref @ [CHR 0x22] @ ''. Matches:''
                 @ concat (map (\<lambda>t. [CHR 0x0A] @ ''  '' @ [CHR 0x22] @ t_content t @ [CHR 0x22]
                                      @ '' (id:'' @ t_id t @ '')'')
                             (take 5 (filter (\<lambda>t. str_includes (toLowerCase (t_content t)) (toLowerCase ref))
                                        results))))))"
proof -
  have ne: "length (filter (\<lambda>t. toLowerCase (t_content t) = toLowerCase ref) results) \<noteq> 1"
    using assms(5) by simp
  have more: "1 < length (filter (\<lambda>t. str_includes (toLowerCase (t_content t)) (toLowerCase ref)) results)"
    using assms(5) exact_is_partial[of "toLowerCase ref" results] by linarith
  with ne have "matchTasks ref results
      = Some (Inl (Fatal (ambiguousMessage ''task'' ref
                     (map (\<lambda>t. (t_content t, t_id t))
                       (take 5 (filter (\<lambda>t. str_includes (toLowerCase (t_content t)) (toLowerCase ref)) results))))))"
    by (intro matchTasks_ambiguous)
  then have "matchTasks ref results
      = Some (Inl (Fatal (''Ambiguous task '' @ [CHR 0x22] @ ref @ [CHR 0x22] @ ''. Matches:''
                 @ concat (map (\<lambda>t. [CHR 0x0A] @ ''  '' @ [CHR 0x22] @ t_content t @ [CHR 0x22]
                                      @ '' (id:'' @ t_id t @ '')'')
                             (take 5 (filter (\<lambda>t. str_includes (toLowerCase (t_content t)) (toLowerCase ref))
                                        results))))))"
    using more by (simp only: ambiguous_task_text)
  with assms(4) show ?thesis
    by (simp add: resolveTaskRef_search[OF assms(1-3)] searchTasks_def searchQuery_def)
qed

lemma x_reaches_search:
  "trim ''x'' \<noteq> []" "parseTodoistUrl ''x'' = None" "\<not> isIdRef ''x''"
  by (simp_all add: trim_def isWhiteSpace_def parseTodoistUrl_def matchTodoistUrl_def
      stripPrefix_def isIdRef_def startsWith_def)

lemma x_lower:
  "toLowerCase ''x'' = ''x''" "toLowerCase ''X'' = ''x''"
  "toLowerCase ''xa'' = ''xa''" "toLowerCase ''xb'' = ''xb''" "toLowerCase ''xc'' = ''xc''"
  "toLowerCase ''xd'' = ''xd''" "toLowerCase ''xe'' = ''xe''"
  by (simp_all add: toLowerCase_def lowerChar_def upperLetters_def lowerLetters_def)

lemma crowded_matches:
  "filter (\<lambda>t. toLowerCase (t_content t) = toLowerCase ''x'') crowdedTasks
     = [sampleTask ''6'' ''x'', sampleTask ''7'' ''X'']"
  "filter (\<lambda>t. str_includes (toLowerCase (t_content t)) (toLowerCase ''x'')) crowdedTasks
     = crowdedTasks"
  by (simp_all add: crowdedTasks_def sampleTask_def x_lower)

lemma crowded_search:
  "getTasksByFilter crowdedApi (''search: '' @ ''x'') (Some 10) = Inr crowdedTasks"
  by (simp add: crowdedApi_def stubApi_def)

lemma crowded_outcome:
  "resolveTaskRef crowdedApi ''x''
       = ([GetTasksByFilter ''search: x'' (Some 10)],
          Inl (Fatal (''Ambiguous task '' @ [CHR 0x22] @ ''x'' @ [CHR 0x22] @ ''. Matches:''
                      @ [CHR 0x0A] @ ''  '' @ [CHR 0x22] @ ''xa'' @ [CHR 0x22] @ '' (id:1)''
                      @ [CHR 0x0A] @ ''  '' @ [CHR 0x22] @ ''xb'' @ [CHR 0x22] @ '' (id:2)''
                      @ [CHR 0x0A] @ ''  '' @ [CHR 0x22] @ ''xc'' @ [CHR 0x22] @ '' (id:3)''
                      @ [CHR 0x0A] @ ''  '' @ [CHR 0x22] @ ''xd'' @ [CHR 0x22] @ '' (id:4)''
                      @ [CHR 0x0A] @ ''  '' @ [CHR 0x22] @ ''xe'' @ [CHR 0x22] @ '' (id:5)'')))"
proof -
  have m: "matchTasks ''x'' crowdedTasks
      = Some (Inl (Fatal (ambiguousMessage ''task'' ''x''
                 [(''xa'', ''1''), (''xb'', ''2''), (''xc'', ''3''), (''xd'', ''4''), (''xe'', ''5'')])))"
    unfolding matchTasks_def Let_def crowded_matches
    by (simp add: crowdedTasks_def sampleTask_def)
  have s: "getTasksByFilter crowdedApi ''search: x'' (Some 10) = Inr crowdedTasks"
    using crowded_search by simp
  show ?thesis
    by (simp add: resolveTaskRef_search[OF x_reaches_search] searchTasks_def searchQuery_def s m
        ambiguousMessage_spelled)
qed

theorem duplicate_exact_matches_ambiguous_witness:
  "trim ''x'' \<noteq> [] \<and> parseTodoistUrl ''x'' = None \<and> \<not> isIdRef ''x''
   \<and> getTasksByFilter crowdedApi ''search: x'' (Some 10) = Inr crowdedTasks
   \<and> filter (\<lambda>t. toLowerCase (t_content t) = toLowerCase ''x'') crowdedTasks
       = [sampleTask ''6'' ''x'', sampleTask ''7'' ''X'']
   \<and> resolveTaskRef crowdedApi ''x''
       = ([GetTasksByFilter ''search: x'' (Some 10)],
          Inl (Fatal (''Ambiguous task '' @ [CHR 0x22] @ ''x'' @ [CHR 0x22] @ ''. Matches:''
                      @ [CHR 0x0A] @ ''  '' @ [CHR 0x22] @ ''xa'' @ [CHR 0x22] @ '' (id:1)''
                      @ [CHR 0x0A] @ ''  '' @ [CHR 0x22] @ ''xb'' @ [CHR 0x22] @ '' (id:2)''
                      @ [CHR 0x0A] @ ''  '' @ [CHR 0x22] @ ''xc'' @ [CHR 0x22] @ '' (id:3)''
                      @ [CHR 0x0A] @ ''  '' @ [CHR 0x22] @ ''xd'' @ [CHR 0x22] @ '' (id:4)''
                      @ [CHR 0x0A] @ ''  '' @ [CHR 0x22] @ ''xe'' @ [CHR 0x22] @ '' (id:5)'')))"
proof -
  have two: "2 \<le> length (filter (\<lambda>t. toLowerCase (t_content t) = toLowerCase ''x'') crowdedTasks)"
    unfolding crowded_matches by simp
  from duplicate_exact_matches_ambiguous [OF x_reaches_search crowded_search two]
  have "resolveTaskRef crowdedApi ''x''
       = ([GetTasksByFilter ''search: x'' (Some 10)],
          Inl (Fatal (''Ambiguous task '' @ [CHR 0x22] @ ''x'' @ [CHR 0x22] @ ''. Matches:''
                      @ [CHR 0x0A] @ ''  '' @ [CHR 0x22] @ ''xa'' @ [CHR 0x22] @ '' (id:1)''
                      @ [CHR 0x0A] @ ''  '' @ [CHR 0x22] @ ''xb'' @ [CHR 0x22] @ '' (id:2)''
                      @ [CHR 0x0A] @ ''  '' @ [CHR 0x22] @ ''xc'' @ [CHR 0x22] @ '' (id:3)''
                      @ [CHR 0x0A] @ ''  '' @ [CHR 0x22] @ ''xd'' @ [CHR 0x22] @ '' (id:4)''
                      @ [CHR 0x0A] @ ''  '' @ [CHR 0x22] @ ''xe'' @ [CHR 0x22] @ '' (id:5)'')))"
    unfolding crowded_matches by (simp add: crowdedTasks_def sampleTask_def)
  then show ?thesis using x_reaches_search crowded_search crowded_matches(1) by simp
qed

text \<open>
  Claim C10 as stated says that the error lists the exactly matching candidates. With
  seven results for the ref \<open>x\<close>, of which the sixth and the seventh are the two exact
  matches, the text lists the first five results; the ids of the two exact matches do not
  occur in it.
\<close>

theorem duplicate_exact_matches_unlisted_counterexample:
  "getTasksByFilter crowdedApi ''search: x'' (Some 10) = Inr crowdedTasks
   \<and> crowdedTasks ! 5 = sampleTask ''6'' ''x''
   \<and> crowdedTasks ! 6 = sampleTask ''7'' ''X''
   \<and> toLowerCase (t_content (sampleTask ''6'' ''x'')) = toLowerCase ''x''
   \<and> toLowerCase (t_content (sampleTask ''7'' ''X'')) = toLowerCase ''x''
   \<and> snd (resolveTaskRef crowdedApi ''x'')
       = Inl (Fatal (''Ambiguous task '' @ [CHR 0x22] @ ''x'' @ [CHR 0x22] @ ''. Matches:''
                      @ [CHR 0x0A] @ ''  '' @ [CHR 0x22] @ ''xa'' @ [CHR 0x22] @ '' (id:1)''
                      @ [CHR 0x0A] @ ''  '' @ [CHR 0x22] @ ''xb'' @ [CHR 0x22] @ '' (id:2)''
                      @ [CHR 0x0A] @ ''  '' @ [CHR 0x22] @ ''xc'' @ [CHR 0x22] @ '' (id:3)''
                      @ [CHR 0x0A] @ ''  '' @ [CHR 0x22] @ ''xd'' @ [CHR 0x22] @ '' (id:4)''
                      @ [CHR 0x0A] @ ''  '' @ [CHR 0x22] @ ''xe'' @ [CHR 0x22] @ '' (id:5)''))
   \<and> \<not> str_includes (''Ambiguous task '' @ [CHR 0x22] @ ''x'' @ [CHR 0x22] @ ''. Matches:''
                      @ [CHR 0x0A] @ ''  '' @ [CHR 0x22] @ ''xa'' @ [CHR 0x22] @ '' (id:1)''
                      @ [CHR 0x0A] @ ''  '' @ [CHR 0x22] @ ''xb'' @ [CHR 0x22] @ '' (id:2)''
                      @ [CHR 0x0A] @ ''  '' @ [CHR 0x22] @ ''xc'' @ [CHR 0x22] @ '' (id:3)''
                      @ [CHR 0x0A] @ ''  '' @ [CHR 0x22] @ ''xd'' @ [CHR 0x22] @ '' (id:4)''
                      @ [CHR 0x0A] @ ''  '' @ [CHR 0x22] @ ''xe'' @ [CHR 0x22] @ '' (id:5)'') ''(id:6)''
   \<and> \<not> str_includes (''Ambiguous task '' @ [CHR 0x22] @ ''x'' @ [CHR 0x22] @ ''. Matches:''
                      @ [CHR 0x0A] @ ''  '' @ [CHR 0x22] @ ''xa'' @ [CHR 0x22] @ '' (id:1)''
                      @ [CHR 0x0A] @ ''  '' @ [CHR 0x22] @ ''xb'' @ [CHR 0x22] @ '' (id:2)''
                      @ [CHR 0x0A] @ ''  '' @ [CHR 0x22] @ ''xc'' @ [CHR 0x22] @ '' (id:3)''
                      @ [CHR 0x0A] @ ''  '' @ [CHR 0x22] @ ''xd'' @ [CHR 0x22] @ '' (id:4)''
                      @ [CHR 0x0A] @ ''  '' @ [CHR 0x22] @ ''xe'' @ [CHR 0x22] @ '' (id:5)'') ''(id:7)''"
proof -
  have "crowdedTasks ! 5 = sampleTask ''6'' ''x''" "crowdedTasks ! 6 = sampleTask ''7'' ''X''"
    by (simp_all add: crowdedTasks_def)
  moreover have "toLowerCase (t_content (sampleTask ''6'' ''x'')) = toLowerCase ''x''"
    "toLowerCase (t_content (sampleTask ''7'' ''X'')) = toLowerCase ''x''"
    by (simp_all add: sampleTask_def x_lower)
  moreover have "\<not> str_includes (''Ambiguous task '' @ [CHR 0x22] @ ''x'' @ [CHR 0x22] @ ''. Matches:''
                      @ [CHR 0x0A] @ ''  '' @ [CHR 0x22] @ ''xa'' @ [CHR 0x22] @ '' (id:1)''
                      @ [CHR 0x0A] @ ''  '' @ [CHR 0x22] @ ''xb'' @ [CHR 0x22] @ '' (id:2)''
                      @ [CHR 0x0A] @ ''  '' @ [CHR 0x22] @ ''xc'' @ [CHR 0x22] @ '' (id:3)''
                      @ [CHR 0x0A] @ ''  '' @ [CHR 0x22] @ ''xd'' @ [CHR 0x22] @ '' (id:4)''
                      @ [CHR 0x0A] @ ''  '' @ [CHR 0x22] @ ''xe'' @ [CHR 0x22] @ '' (id:5)'') ''(id:6)''"
    by simp
  moreover have "\<not> str_includes (''Ambiguous task '' @ [CHR 0x22] @ ''x'' @ [CHR 0x22] @ ''. Matches:''
                      @ [CHR 0x0A] @ ''  '' @ [CHR 0x22] @ ''xa'' @ [CHR 0x22] @ '' (id:1)''
                      @ [CHR 0x0A] @ ''  '' @ [CHR 0x22] @ ''xb'' @ [CHR 0x22] @ '' (id:2)''
                      @ [CHR 0x0A] @ ''  '' @ [CHR 0x22] @ ''xc'' @ [CHR 0x22] @ '' (id:3)''
                      @ [CHR 0x0A] @ ''  '' @ [CHR 0x22] @ ''xd'' @ [CHR 0x22] @ '' (id:4)''
                      @ [CHR 0x0A] @ ''  '' @ [CHR 0x22] @ ''xe'' @ [CHR 0x22] @ '' (id:5)'') ''(id:7)''"
    by simp
  ultimately show ?thesis using crowded_search crowded_outcome by simp
qed

text \<open>
  Claim C5. When a ref reaches the search and the search call rejects, the rejection is
  not the outcome: after the search call, the raw id is fetched if the ref looks like
  one, a task found that way is returned, and in every other case the outcome is the
  not-found error, whose text is
  \<open>Task "<ref>" not found. Use a name, URL, or id:xxx.\<close>
\<close>

theorem search_failure_falls_back:
  assumes "trim ref \<noteq> []" and "parseTodoistUrl ref = None" and "\<not> isIdRef ref"
    and "getTasksByFilter api (''search: '' @ ref) (Some 10) = Inl err"
  shows "resolveTaskRef api ref
           = (GetTasksByFilter (''search: '' @ ref) (Some 10)
                # (if looksLikeRawId ref then [GetTask ref] else []),
              (if looksLikeRawId ref
               then (case getTask api ref of
                       Inr t \<Rightarrow> Inr t
                     | Inl e \<Rightarrow>
                         Inl (Fatal (''Task '' @ [CHR 0x22] @ ref @ [CHR 0x22]
                                     @ '' not found. Use a name, URL, or id:xxx.'')))
               else Inl (Fatal (''Task '' @ [CHR 0x22] @ ref @ [CHR 0x22]
                                @ '' not found. Use a name, URL, or id:xxx.''))))"
  using assms(4)
  by (simp add: resolveTaskRef_search[OF assms(1-3)] searchTasks_def rawTaskFallback_def
      searchQuery_def notFoundMessage_spelled split: sum.splits)

lemma abc123_reaches_search:
  "trim ''abc123'' \<noteq> []" "parseTodoistUrl ''abc123'' = None" "\<not> isIdRef ''abc123''"
  by (simp_all add: trim_def isWhiteSpace_def parseTodoistUrl_def matchTodoistUrl_def
      stripPrefix_def isIdRef_def startsWith_def)

lemma offline_search:
  "getTasksByFilter offlineApi (''search: '' @ ''abc123'') (Some 10) = Inl ''fetch failed''"
  by (simp add: offlineApi_def stubApi_def)

theorem search_failure_falls_back_witness:
  "trim ''abc123'' \<noteq> [] \<and> parseTodoistUrl ''abc123'' = None \<and> \<not> isIdRef ''abc123''
   \<and> getTasksByFilter offlineApi ''search: abc123'' (Some 10) = Inl ''fetch failed''
   \<and> looksLikeRawId ''abc123''
   \<and> getTask offlineApi ''abc123'' = Inl ''HTTP 404''
   \<and> resolveTaskRef offlineApi ''abc123''
       = ([GetTasksByFilter ''search: abc123'' (Some 10), GetTask ''abc123''],
          Inl (Fatal (''Task '' @ [CHR 0x22] @ ''abc123'' @ [CHR 0x22]
                      @ '' not found. Use a name, URL, or id:xxx.'')))"
proof -
  have l: "looksLikeRawId ''abc123''" by (simp add: looksLikeRawId_def isDigit_def isAsciiLetter_def)
  have g: "getTask offlineApi ''abc123'' = Inl ''HTTP 404''" by (simp add: offlineApi_def stubApi_def)
  from search_failure_falls_back [OF abc123_reaches_search offline_search]
  have "resolveTaskRef offlineApi ''abc123''
       = ([GetTasksByFilter ''search: abc123'' (Some 10), GetTask ''abc123''],
          Inl (Fatal (''Task '' @ [CHR 0x22] @ ''abc123'' @ [CHR 0x22]
                      @ '' not found. Use a name, URL, or id:xxx.'')))"
    using l g by simp
  then show ?thesis using abc123_reaches_search offline_search l g by simp
qed

lemma includes_space: "str_includes ref '' '' \<longleftrightarrow> CHR '' '' \<in> set ref"
proof
  assume "str_includes ref '' ''"
  then obtain a b where "ref = a @ '' '' @ b" unfolding str_includes_iff by blast
  then show "CHR '' '' \<in> set ref" by simp
next
  assume "CHR '' '' \<in> set ref"
  then obtain a b where "ref = a @ CHR '' '' # b" by (auto dest: split_list)
  then have "ref = a @ '' '' @ b" by simp
  then show "str_includes ref '' ''" unfolding str_includes_iff by blast
qed

lemma looksLikeRawId_iff:
  "looksLikeRawId ref \<longleftrightarrow>
     CHR '' '' \<notin> set ref
     \<and> ((ref \<noteq> [] \<and> (\<forall>c\<in>set ref. isDigit c))
        \<or> ((\<exists>c\<in>set ref. isAsciiLetter c) \<and> (\<exists>c\<in>set ref. isDigit c)))"
  by (auto simp: looksLikeRawId_def includes_space list_all_iff list_ex_iff)

lemma matchTasks_none:
  assumes "filter (\<lambda>t. str_includes (toLowerCase (t_content t)) (toLowerCase ref)) results = []"
  shows "matchTasks ref results = None"
proof -
  have "length (filter (\<lambda>t. toLowerCase (t_content t) = toLowerCase ref) results) \<le> 0"
    using exact_is_partial[of "toLowerCase ref" results] assms by simp
  then show ?thesis using assms by (simp add: matchTasks_def Let_def)
qed

text \<open>
  Claim C6, as the code has it. Let a ref reach the raw-id fallback: it reaches the search,
  and the search rejects or returns no result that contains the ref. Then the ref itself
  is fetched as an id if and only if \<open>looksLikeRawId\<close> holds, that is: the ref has no
  space character (U+0020), and it is a non-empty string of digits or it has at least one
  ASCII letter and at least one digit, among characters of any kind. A rejection of that
  fetch is not the outcome: the outcome is the not-found message.
\<close>

theorem raw_id_fallback_guard:
  assumes "trim ref \<noteq> []" and "parseTodoistUrl ref = None" and "\<not> isIdRef ref"
    and "getTasksByFilter api (searchQuery ref) (Some 10) = Inl err
         \<or> (getTasksByFilter api (searchQuery ref) (Some 10) = Inr results
            \<and> filter (\<lambda>t. str_includes (toLowerCase (t_content t)) (toLowerCase ref)) results = [])"
  shows "(GetTask ref \<in> set (fst (resolveTaskRef api ref)) \<longleftrightarrow> looksLikeRawId ref)
       \<and> (looksLikeRawId ref \<longleftrightarrow>
            CHR '' '' \<notin> set ref
            \<and> ((ref \<noteq> [] \<and> (\<forall>c\<in>set ref. isDigit c))
               \<or> ((\<exists>c\<in>set ref. isAsciiLetter c) \<and> (\<exists>c\<in>set ref. isDigit c))))
       \<and> (looksLikeRawId ref \<and> getTask api ref = Inl e
            \<longrightarrow> snd (resolveTaskRef api ref) = Inl (Fatal (notFoundMessage ''Task'' ref)))"
proof -
  have none: "searchTasks api ref = None"
    using assms(4) by (auto simp: searchTasks_def matchTasks_none)
  have r: "resolveTaskRef api ref
             = (GetTasksByFilter (searchQuery ref) (Some 10) # fst (rawTaskFallback api ref),
                snd (rawTaskFallback api ref))"
    by (simp add: resolveTaskRef_search[OF assms(1-3)] none)
  have a: "GetTask ref \<in> set (fst (resolveTaskRef api ref)) \<longleftrightarrow> looksLikeRawId ref"
    unfolding r by (simp add: rawTaskFallback_def split: sum.splits)
  have c: "looksLikeRawId ref \<and> getTask api ref = Inl e
            \<longrightarrow> snd (resolveTaskRef api ref) = Inl (Fatal (notFoundMessage ''Task'' ref))"
    unfolding r by (simp add: rawTaskFallback_def)
  from a c looksLikeRawId_iff[of ref] show ?thesis by blast
qed

lemma a1_reaches_search:
  "trim ''a-1'' \<noteq> []" "parseTodoistUrl ''a-1'' = None" "\<not> isIdRef ''a-1''"
  by (simp_all add: trim_def isWhiteSpace_def parseTodoistUrl_def matchTodoistUrl_def
      stripPrefix_def isIdRef_def startsWith_def)

lemma tab_reaches_search:
  "trim [CHR ''a'', CHR 0x09, CHR ''1''] \<noteq> []"
  "parseTodoistUrl [CHR ''a'', CHR 0x09, CHR ''1''] = None"
  "\<not> isIdRef [CHR ''a'', CHR 0x09, CHR ''1'']"
  by (simp_all add: trim_def isWhiteSpace_def parseTodoistUrl_def matchTodoistUrl_def
      stripPrefix_def isIdRef_def startsWith_def)

lemma empty_search: "getTasksByFilter emptyApi q l = Inr []"
  by (simp add: emptyApi_def stubApi_def)

lemma empty_getTask: "getTask emptyApi i = Inl ''HTTP 404''"
  by (simp add: emptyApi_def stubApi_def)

lemma empty_search_none: "searchTasks emptyApi ref = None"
  by (simp add: searchTasks_def empty_search matchTasks_def)

theorem raw_id_fallback_guard_witness:
  "trim ''a-1'' \<noteq> [] \<and> parseTodoistUrl ''a-1'' = None \<and> \<not> isIdRef ''a-1''
   \<and> getTasksByFilter emptyApi (searchQuery ''a-1'') (Some 10) = Inr []
   \<and> looksLikeRawId ''a-1''
   \<and> getTask emptyApi ''a-1'' = Inl ''HTTP 404''
   \<and> GetTask ''a-1'' \<in> set (fst (resolveTaskRef emptyApi ''a-1''))
   \<and> snd (resolveTaskRef emptyApi ''a-1'') = Inl (Fatal (notFoundMessage ''Task'' ''a-1''))"
proof -
  have s: "getTasksByFilter emptyApi (searchQuery ''a-1'') (Some 10) = Inr []"
    by (rule empty_search)
  have h: "getTasksByFilter emptyApi (searchQuery ''a-1'') (Some 10) = Inl []
         \<or> (getTasksByFilter emptyApi (searchQuery ''a-1'') (Some 10) = Inr []
            \<and> filter (\<lambda>t. str_includes (toLowerCase (t_content t)) (toLowerCase ''a-1'')) [] = [])"
    using s by simp
  have l: "looksLikeRawId ''a-1''" by (simp add: looksLikeRawId_def isDigit_def isAsciiLetter_def)
  have g: "getTask emptyApi ''a-1'' = Inl ''HTTP 404''" by (simp add: emptyApi_def stubApi_def)
  from raw_id_fallback_guard [OF a1_reaches_search h, of "''HTTP 404''"] l g
  have "GetTask ''a-1'' \<in> set (fst (resolveTaskRef emptyApi ''a-1''))
      \<and> snd (resolveTaskRef emptyApi ''a-1'') = Inl (Fatal (notFoundMessage ''Task'' ''a-1''))"
    by blast
  then show ?thesis using a1_reaches_search s l g by blast
qed

text \<open>
  Claim C6 as stated takes a raw id to be free of whitespace and, when not all digits,
  alphanumeric. The refs \<open>a-1\<close> (a hyphen) and \<open>a<TAB>1\<close> (a tab inside) are
  neither, and both are fetched as ids.
\<close>

theorem raw_id_not_alphanumeric_counterexample:
  "GetTask ''a-1'' \<in> set (fst (resolveTaskRef emptyApi ''a-1''))
   \<and> \<not> spec_looksLikeRawId ''a-1''
   \<and> GetTask [CHR ''a'', CHR 0x09, CHR ''1'']
       \<in> set (fst (resolveTaskRef emptyApi [CHR ''a'', CHR 0x09, CHR ''1'']))
   \<and> \<not> spec_looksLikeRawId [CHR ''a'', CHR 0x09, CHR ''1'']"
proof -
  have "resolveTaskRef emptyApi ''a-1''
          = ([GetTasksByFilter (searchQuery ''a-1'') (Some 10), GetTask ''a-1''],
             Inl (Fatal (notFoundMessage ''Task'' ''a-1'')))"
    by (simp add: resolveTaskRef_search[OF a1_reaches_search] empty_search_none
        rawTaskFallback_def looksLikeRawId_def isDigit_def isAsciiLetter_def empty_getTask)
  moreover have "resolveTaskRef emptyApi [CHR ''a'', CHR 0x09, CHR ''1'']
          = ([GetTasksByFilter (searchQuery [CHR ''a'', CHR 0x09, CHR ''1'']) (Some 10),
              GetTask [CHR ''a'', CHR 0x09, CHR ''1'']],
             Inl (Fatal (notFoundMessage ''Task'' [CHR ''a'', CHR 0x09, CHR ''1''])))"
    by (simp add: resolveTaskRef_search[OF tab_reaches_search] empty_search_none
        rawTaskFallback_def looksLikeRawId_def isDigit_def isAsciiLetter_def empty_getTask)
  moreover have "\<not> spec_looksLikeRawId ''a-1''"
    by (simp add: spec_looksLikeRawId_def isDigit_def isAsciiLetter_def isWhiteSpace_def)
  moreover have "\<not> spec_looksLikeRawId [CHR ''a'', CHR 0x09, CHR ''1'']"
    by (simp add: spec_looksLikeRawId_def isDigit_def isAsciiLetter_def isWhiteSpace_def)
  ultimately show ?thesis by simp
qed

subsection \<open>Formatting\<close>

text \<open>
  Claim C9. For a task whose due value has a description but neither a date nor a
  date-time, \<open>formatTask\<close> gives \<open>due\<close> null, \<open>dueString\<close> the description and
  \<open>isRecurring\<close> the flag of the due value. In general \<open>due\<close> is the date when there
  is one, else the date-time (null when there is none either); a task without a due value
  has \<open>due\<close> null and \<open>isRecurring\<close> false.
\<close>

theorem formatTask_due:
  "(t_due t = Some d \<and> due_date d = None \<and> due_datetime d = None
      \<longrightarrow> f_due (formatTask t) = None
          \<and> f_dueString (formatTask t) = Some (due_string d)
          \<and> f_isRecurring (formatTask t) = due_isRecurring d)
   \<and> (t_due t = Some d \<and> due_date d = Some date \<longrightarrow> f_due (formatTask t) = Some date)
   \<and> (t_due t = Some d \<and> due_date d = None \<longrightarrow> f_due (formatTask t) = due_datetime d)
   \<and> (t_due t = None \<longrightarrow> f_due (formatTask t) = None \<and> \<not> f_isRecurring (formatTask t))"
  by (simp add: formatTask_def)

theorem formatTask_due_witness:
  "t_due recurringTask
     = Some \<lparr>due_date = None, due_datetime = None, due_string = ''every day'',
             due_isRecurring = True\<rparr>
   \<and> f_due (formatTask recurringTask) = None
   \<and> f_dueString (formatTask recurringTask) = Some ''every day''
   \<and> f_isRecurring (formatTask recurringTask) = True
   \<and> f_due (formatTask (dueTask ''1'' ''Deploy pipeline'' ''2024-01-15'')) = Some ''2024-01-15''
   \<and> f_due (formatTask timedTask) = Some ''2024-01-15T09:00:00Z''
   \<and> t_due (sampleTask ''12'' ''Work'') = None
   \<and> f_due (formatTask (sampleTask ''12'' ''Work'')) = None
   \<and> f_isRecurring (formatTask (sampleTask ''12'' ''Work'')) = False"
proof -
  have r: "t_due recurringTask
     = Some \<lparr>due_date = None, due_datetime = None, due_string = ''every day'',
             due_isRecurring = True\<rparr>"
    by (simp add: recurringTask_def)
  have d: "t_due (dueTask ''1'' ''Deploy pipeline'' ''2024-01-15'')
     = Some \<lparr>due_date = Some ''2024-01-15'', due_datetime = None, due_string = ''2024-01-15'',
             due_isRecurring = False\<rparr>"
    by (simp add: dueTask_def)
  have t: "t_due timedTask
     = Some \<lparr>due_date = None, due_datetime = Some ''2024-01-15T09:00:00Z'',
             due_string = ''tomorrow 9am'', due_isRecurring = False\<rparr>"
    by (simp add: timedTask_def)
  have n: "t_due (sampleTask ''12'' ''Work'') = None" by (simp add: sampleTask_def)
  from formatTask_due [of recurringTask
      "\<lparr>due_date = None, due_datetime = None, due_string = ''every day'', due_isRecurring = True\<rparr>"] r
  have 1: "f_due (formatTask recurringTask) = None
         \<and> f_dueString (formatTask recurringTask) = Some ''every day''
         \<and> f_isRecurring (formatTask recurringTask) = True"
    by simp
  from formatTask_due [of "dueTask ''1'' ''Deploy pipeline'' ''2024-01-15''"
      "\<lparr>due_date = Some ''2024-01-15'', due_datetime = None, due_string = ''2024-01-15'',
             due_isRecurring = False\<rparr>" "''2024-01-15''"] d
  have 2: "f_due (formatTask (dueTask ''1'' ''Deploy pipeline'' ''2024-01-15'')) = Some ''2024-01-15''"
    by simp
  from formatTask_due [of timedTask
      "\<lparr>due_date = None, due_datetime = Some ''2024-01-15T09:00:00Z'',
             due_string = ''tomorrow 9am'', due_isRecurring = False\<rparr>"] t
  have 3: "f_due (formatTask timedTask) = Some ''2024-01-15T09:00:00Z''"
    by simp
  from formatTask_due [of "sampleTask ''12'' ''Work''"] n
  have 4: "f_due (formatTask (sampleTask ''12'' ''Work'')) = None
         \<and> f_isRecurring (formatTask (sampleTask ''12'' ''Work'')) = False"
    by simp
  from r n 1 2 3 4 show ?thesis by blast
qed

subsection \<open>Reminders\<close>

lemma cmdReminderAdd_neither:
  assumes "\<not> truthy (opt_before opts)" and "\<not> truthy (opt_at opts)"
  shows "cmdReminderAdd w ref opts
           = ([], Inl (Fatal ''Must specify --before <duration> or --at <datetime>''))"
  using assms by (simp add: cmdReminderAdd_def)

lemma cmdReminderAdd_both:
  assumes "opt_before opts = Some before" and "before \<noteq> []"
    and "opt_at opts = Some at" and "at \<noteq> []"
    and "getToken (credentials w) = Inr token"
    and "resolveTaskRef (client w) ref = (calls, Inr task)"
    and "parseDuration before = Some minutes"
    and "t_due task \<noteq> None"
    and "syncPost w token
              \<lparr>cmd_type = ''reminder_add'', cmd_uuid = fst (randomUUIDs w),
               cmd_temp_id = snd (randomUUIDs w), cmd_item_id = t_id task,
               cmd_minute_offset = Some minutes, cmd_due_date = Some at\<rparr> = Inr resp"
    and "resp_ok resp"
  shows "cmdReminderAdd w ref opts
            = (map Client calls
                 @ [SyncPost token
                      \<lparr>cmd_type = ''reminder_add'', cmd_uuid = fst (randomUUIDs w),
                       cmd_temp_id = snd (randomUUIDs w), cmd_item_id = t_id task,
                       cmd_minute_offset = Some minutes, cmd_due_date = Some at\<rparr>],
               Inr \<lparr>ra_task = (t_id task, t_content task),
                    ra_reminder = before @ '' before due'',
                    ra_next_actions = [(''todoist-cli reminders '' @ t_id task,
                                        ''List reminders for this task'')]\<rparr>)"
proof -
  have args: "reminderArgs opts task = Inr (Some minutes, Some at)"
    using assms(1-4,7,8) by (simp add: reminderArgs_def truthy_def)
  have rtext: "reminderText opts = before @ '' before due''"
    using assms(1,2) by (simp add: reminderText_def truthy_def)
  have tr: "truthy (opt_before opts)" using assms(1,2) by (simp add: truthy_def)
  show ?thesis
    using tr assms(5,6,9,10) by (simp add: cmdReminderAdd_def args rtext Let_def)
qed

text \<open>
  Claim C8, as the code has it. \<open>reminder-add\<close> needs at least one of \<open>--before\<close>
  and \<open>--at\<close>: with neither, it exits with the usage message before the token is read
  and before any remote call. With both, it is not refused: when the duration parses and
  the task has a due value, the one reminder command that is posted carries both the
  minute offset and the absolute due, and the command succeeds.
\<close>

theorem reminder_add_options:
  "(\<not> truthy (opt_before opts) \<and> \<not> truthy (opt_at opts)
      \<longrightarrow> cmdReminderAdd w ref opts
            = ([], Inl (Fatal ''Must specify --before <duration> or --at <datetime>'')))
   \<and> (opt_before opts = Some before \<and> before \<noteq> [] \<and> opt_at opts = Some at \<and> at \<noteq> []
        \<and> getToken (credentials w) = Inr token
        \<and> resolveTaskRef (client w) ref = (calls, Inr task)
        \<and> parseDuration before = Some minutes
        \<and> t_due task \<noteq> None
        \<and> syncPost w token
              \<lparr>cmd_type = ''reminder_add'', cmd_uuid = fst (randomUUIDs w),
               cmd_temp_id = snd (randomUUIDs w), cmd_item_id = t_id task,
               cmd_minute_offset = Some minutes, cmd_due_date = Some at\<rparr> = Inr resp
        \<and> resp_ok resp
      \<longrightarrow> cmdReminderAdd w ref opts
            = (map Client calls
                 @ [SyncPost token
                      \<lparr>cmd_type = ''reminder_add'', cmd_uuid = fst (randomUUIDs w),
                       cmd_temp_id = snd (randomUUIDs w), cmd_item_id = t_id task,
                       cmd_minute_offset = Some minutes, cmd_due_date = Some at\<rparr>],
               Inr \<lparr>ra_task = (t_id task, t_content task),
                    ra_reminder = before @ '' before due'',
                    ra_next_actions = [(''todoist-cli reminders '' @ t_id task,
                                        ''List reminders for this task'')]\<rparr>))"
  using cmdReminderAdd_neither[of opts w ref]
    cmdReminderAdd_both[of opts before at w token ref calls task minutes resp]
  by blast

lemma reminderWorld_token: "getToken (credentials reminderWorld) = Inr ''token''"
  by (simp add: reminderWorld_def getToken_def)

lemma reminderWorld_resolve:
  "resolveTaskRef (client reminderWorld) ''id:1''
     = ([GetTask ''1''], Inr (dueTask ''1'' ''Deploy pipeline'' ''2024-01-15''))"
proof -
  have h: "isIdRef ''id:1''" by (simp add: isIdRef_def startsWith_def)
  have g: "getTask (client reminderWorld) ''1'' = Inr (dueTask ''1'' ''Deploy pipeline'' ''2024-01-15'')"
    by (simp add: reminderWorld_def stubApi_def dueTask_def sampleTask_def)
  show ?thesis using h g idRef_not_blank[OF h] idRef_not_url[OF h]
    by (simp add: resolveTaskRef_def extractId_def awaited_def)
qed

lemma parseDuration_30m: "parseDuration ''30m'' = Some 30"
  by (simp add: parseDuration_def parseInt_def digitValue_def isDigit_def isWhiteSpace_def)

lemma reminderWorld_both:
  "cmdReminderAdd reminderWorld ''id:1'' bothOpts
       = ([Client (GetTask ''1''),
           SyncPost ''token''
             \<lparr>cmd_type = ''reminder_add'', cmd_uuid = ''uuid-1'', cmd_temp_id = ''uuid-2'',
              cmd_item_id = ''1'', cmd_minute_offset = Some 30,
              cmd_due_date = Some ''2026-02-20T10:00''\<rparr>],
          Inr \<lparr>ra_task = (''1'', ''Deploy pipeline''),
               ra_reminder = ''30m before due'',
               ra_next_actions = [(''todoist-cli reminders 1'', ''List reminders for this task'')]\<rparr>)"
proof -
  have b: "opt_before bothOpts = Some ''30m''" and a: "opt_at bothOpts = Some ''2026-02-20T10:00''"
    by (simp_all add: bothOpts_def)
  have d: "t_due (dueTask ''1'' ''Deploy pipeline'' ''2024-01-15'') \<noteq> None"
    by (simp add: dueTask_def)
  have sp: "syncPost reminderWorld ''token''
              \<lparr>cmd_type = ''reminder_add'', cmd_uuid = fst (randomUUIDs reminderWorld),
               cmd_temp_id = snd (randomUUIDs reminderWorld),
               cmd_item_id = t_id (dueTask ''1'' ''Deploy pipeline'' ''2024-01-15''),
               cmd_minute_offset = Some 30, cmd_due_date = Some ''2026-02-20T10:00''\<rparr>
            = Inr \<lparr>resp_ok = True, resp_status = 200\<rparr>"
    by (simp add: reminderWorld_def)
  have u: "randomUUIDs reminderWorld = (''uuid-1'', ''uuid-2'')" by (simp add: reminderWorld_def)
  have i: "t_id (dueTask ''1'' ''Deploy pipeline'' ''2024-01-15'') = ''1''"
    "t_content (dueTask ''1'' ''Deploy pipeline'' ''2024-01-15'') = ''Deploy pipeline''"
    by (simp_all add: dueTask_def sampleTask_def)
  from cmdReminderAdd_both [OF b _ a _ reminderWorld_token reminderWorld_resolve
      parseDuration_30m d sp]
  show ?thesis unfolding u i by simp
qed

theorem reminder_add_options_witness:
  "\<not> truthy (opt_before noOpts) \<and> \<not> truthy (opt_at noOpts)
   \<and> cmdReminderAdd reminderWorld ''id:1'' noOpts
       = ([], Inl (Fatal ''Must specify --before <duration> or --at <datetime>''))
   \<and> opt_before bothOpts = Some ''30m'' \<and> opt_at bothOpts = Some ''2026-02-20T10:00''
   \<and> getToken (credentials reminderWorld) = Inr ''token''
   \<and> resolveTaskRef (client reminderWorld) ''id:1''
       = ([GetTask ''1''], Inr (dueTask ''1'' ''Deploy pipeline'' ''2024-01-15''))
   \<and> parseDuration ''30m'' = Some 30
   \<and> t_due (dueTask ''1'' ''Deploy pipeline'' ''2024-01-15'') \<noteq> None
   \<and> fst (cmdReminderAdd reminderWorld ''id:1'' bothOpts)
       = [Client (GetTask ''1''),
          SyncPost ''token''
            \<lparr>cmd_type = ''reminder_add'', cmd_uuid = ''uuid-1'', cmd_temp_id = ''uuid-2'',
             cmd_item_id = ''1'', cmd_minute_offset = Some 30,
             cmd_due_date = Some ''2026-02-20T10:00''\<rparr>]"
proof -
  have n: "\<not> truthy (opt_before noOpts) \<and> \<not> truthy (opt_at noOpts)"
    by (simp add: noOpts_def truthy_def)
  from reminder_add_options [of noOpts reminderWorld "''id:1''"] n
  have 1: "cmdReminderAdd reminderWorld ''id:1'' noOpts
       = ([], Inl (Fatal ''Must specify --before <duration> or --at <datetime>''))"
    by blast
  have b: "opt_before bothOpts = Some ''30m''" and a: "opt_at bothOpts = Some ''2026-02-20T10:00''"
    by (simp_all add: bothOpts_def)
  have d: "t_due (dueTask ''1'' ''Deploy pipeline'' ''2024-01-15'') \<noteq> None"
    by (simp add: dueTask_def)
  have sp: "syncPost reminderWorld ''token''
              \<lparr>cmd_type = ''reminder_add'', cmd_uuid = fst (randomUUIDs reminderWorld),
               cmd_temp_id = snd (randomUUIDs reminderWorld),
               cmd_item_id = t_id (dueTask ''1'' ''Deploy pipeline'' ''2024-01-15''),
               cmd_minute_offset = Some 30, cmd_due_date = Some ''2026-02-20T10:00''\<rparr>
            = Inr \<lparr>resp_ok = True, resp_status = 200\<rparr>"
    by (simp add: reminderWorld_def)
  have u: "randomUUIDs reminderWorld = (''uuid-1'', ''uuid-2'')" by (simp add: reminderWorld_def)
  have i: "t_id (dueTask ''1'' ''Deploy pipeline'' ''2024-01-15'') = ''1''"
    by (simp add: dueTask_def sampleTask_def)
  from reminder_add_options [of bothOpts reminderWorld "''id:1''" "''30m''" "''2026-02-20T10:00''"
      "''token''" "[GetTask ''1'']" "dueTask ''1'' ''Deploy pipeline'' ''2024-01-15''" 30
      "\<lparr>resp_ok = True, resp_status = 200\<rparr>"]
    b a reminderWorld_token reminderWorld_resolve parseDuration_30m d sp
  have 2: "fst (cmdReminderAdd reminderWorld ''id:1'' bothOpts)
       = [Client (GetTask ''1''),
          SyncPost ''token''
            \<lparr>cmd_type = ''reminder_add'', cmd_uuid = ''uuid-1'', cmd_temp_id = ''uuid-2'',
             cmd_item_id = ''1'', cmd_minute_offset = Some 30,
             cmd_due_date = Some ''2026-02-20T10:00''\<rparr>]"
    unfolding u i by simp
  from n 1 b a reminderWorld_token reminderWorld_resolve parseDuration_30m d 2
  show ?thesis by blast
qed

text \<open>
  Claim C8 as stated says that an invocation with both options is not accepted. The
  invocation \<open>reminder-add id:1 --before 30m --at 2026-02-20T10:00\<close>, on a task with a
  due value, posts one reminder with both fields and ends in success.
\<close>

theorem reminder_add_both_accepted_counterexample:
  "opt_before bothOpts = Some ''30m'' \<and> opt_at bothOpts = Some ''2026-02-20T10:00''
   \<and> cmdReminderAdd reminderWorld ''id:1'' bothOpts
       = ([Client (GetTask ''1''),
           SyncPost ''token''
             \<lparr>cmd_type = ''reminder_add'', cmd_uuid = ''uuid-1'', cmd_temp_id = ''uuid-2'',
              cmd_item_id = ''1'', cmd_minute_offset = Some 30,
              cmd_due_date = Some ''2026-02-20T10:00''\<rparr>],
          Inr \<lparr>ra_task = (''1'', ''Deploy pipeline''),
               ra_reminder = ''30m before due'',
               ra_next_actions = [(''todoist-cli reminders 1'', ''List reminders for this task'')]\<rparr>)"
  using reminderWorld_both by (simp add: bothOpts_def)

subsection \<open>The daily review\<close>

lemma noon_local_day:
  "startOfLocalDay noonInNewYork = 1705294800000"
  by (simp add: startOfLocalDay_def noonInNewYork_def msPerDay_def)

lemma jan15: "dateOnlyTime ''2024-01-15'' = Some 1705276800000"
  by (simp add: dateOnlyTime_def isDigit_def parseInt_def digitValue_def msPerDay_def dayFromYear_def
      daysInMonth_def isLeapYear_def numeral_eq_Suc)

text \<open>
  In every zone west of UTC, a task whose due date is the current local day passes the
  overdue filter: the date is read as midnight UTC, the day starts at midnight local time.
\<close>

lemma due_today_overdue_west_of_utc:
  assumes "utcOffsetMinutes c < 0"
    and "t_due t = Some d" and "due_date d = Some date"
    and "dateOnlyTime date = Some ((now c + utcOffsetMinutes c * 60000) div msPerDay * msPerDay)"
  shows "isOverdue (startOfLocalDay c) t"
proof -
  have "date \<noteq> []" using assms(4) by (auto simp: dateOnlyTime_def)
  then have "truthy (due_date d)" using assms(3) by (simp add: truthy_def)
  moreover have "(now c + utcOffsetMinutes c * 60000) div msPerDay * msPerDay
                   < startOfLocalDay c"
    using assms(1) by (simp add: startOfLocalDay_def)
  ultimately show ?thesis using assms(2-4) by (simp add: isOverdue_def)
qed

text \<open>
  In this model of time (one fixed offset), at UTC and east of it the filter is the
  comparison of day numbers: a date passes exactly when its day is before the current
  local day.
\<close>

lemma overdue_filter_east_of_utc:
  assumes "0 \<le> utcOffsetMinutes c" and "utcOffsetMinutes c < 1440"
  shows "day * msPerDay < startOfLocalDay c
           \<longleftrightarrow> day < (now c + utcOffsetMinutes c * 60000) div msPerDay"
  using assms unfolding startOfLocalDay_def msPerDay_def by linarith

text \<open>
  Claim C7 against the code. At noon of 2024-01-15 in a zone five hours west of UTC, the
  local day is 2024-01-15 and starts at 05:00 UTC. A task due \<open>2024-01-15\<close>, today, is
  read as midnight UTC of that day, which is before 05:00 UTC: the overdue filter keeps
  it, and the review lists it as overdue.
\<close>

theorem review_overdue_holds_task_due_today:
  "(now noonInNewYork + utcOffsetMinutes noonInNewYork * 60000) div msPerDay * msPerDay
     = 1705276800000
   \<and> dateOnlyTime ''2024-01-15'' = Some 1705276800000
   \<and> startOfLocalDay noonInNewYork = 1705294800000
   \<and> isOverdue (startOfLocalDay noonInNewYork) (dueTask ''1'' ''Deploy pipeline'' ''2024-01-15'')
   \<and> r_overdue (reviewReport noonInNewYork [] [dueTask ''1'' ''Deploy pipeline'' ''2024-01-15''] [])
       = (1, [formatTask (dueTask ''1'' ''Deploy pipeline'' ''2024-01-15'')])"
proof -
  have a: "(now noonInNewYork + utcOffsetMinutes noonInNewYork * 60000) div msPerDay * msPerDay
     = 1705276800000"
    by (simp add: noonInNewYork_def msPerDay_def)
  have o: "isOverdue (startOfLocalDay noonInNewYork) (dueTask ''1'' ''Deploy pipeline'' ''2024-01-15'')"
    by (simp add: isOverdue_def noon_local_day jan15 dueTask_def truthy_def)
  have r: "r_overdue (reviewReport noonInNewYork [] [dueTask ''1'' ''Deploy pipeline'' ''2024-01-15''] [])
       = (1, [formatTask (dueTask ''1'' ''Deploy pipeline'' ''2024-01-15'')])"
    using o by (simp add: reviewReport_def Let_def)
  from a jan15 noon_local_day o r show ?thesis by blast
qed

end
